theory Spec2Isabelle
  imports Main "HOL-Library.Multiset"
begin

section \<open>Data model of the store\<close>

text \<open>
  Identifiers are UUIDs; the code only compares them for equality, so they are
  natural numbers here. Timestamps are instants counted in milliseconds since the
  epoch, calendar dates are day numbers.
\<close>

type_synonym uuid = nat

text \<open>Every table the cleanup touches has an owner column \<open>user_id\<close>.\<close>

record owned =
  user_id :: uuid

text \<open>
  The quota-bound tables \<open>companies\<close>, \<open>contacts\<close> and \<open>job_openings\<close>: the SQL
  reads the columns \<open>id\<close>, \<open>user_id\<close> and \<open>created_at\<close> and no other.
\<close>

record entity_row = owned +
  row_id :: uuid
  created_at :: int

text \<open>
  The dependent tables \<open>follow_ups\<close> and \<open>job_opening_contacts\<close>: the SQL reads
  \<open>job_opening_id\<close> and \<open>user_id\<close>; \<open>dep_id\<close> tells rows apart.
\<close>

record dependent_row = owned +
  dep_id :: uuid
  job_opening_id :: uuid

text \<open>
  A subscription, with the columns both programs read. \<open>plan_expiry_date\<close> is
  nullable (\<open>None\<close> is SQL NULL and JavaScript \<open>null\<close>); its type is a parameter,
  because the store holds an instant and the browser a \<open>Date\<close> object.
\<close>

record 'd user_subscription = owned +
  tier :: string
  status :: string
  plan_expiry_date :: "'d option"

type_synonym subscription_row = "int user_subscription"

text \<open>
  A table is the list of its rows. SQL fixes no order among them, and it leaves open
  how a window ordered by \<open>created_at\<close> numbers rows of equal \<open>created_at\<close>. The model
  lets the order of the list decide between such rows, so every numbering that SQL
  allows is the numbering of some order of the list (\<open>every_peer_order_reachable\<close>
  below), and a statement proved for every store holds whatever the executor does.
  The columns read are taken to be \<open>NOT NULL\<close>; the schema is not among the files.
\<close>

record database =
  user_subscriptions :: "subscription_row list"
  companies :: "entity_row list"
  contacts :: "entity_row list"
  job_openings :: "entity_row list"
  follow_ups :: "dependent_row list"
  job_opening_contacts :: "dependent_row list"

text \<open>
  The second argument of \<open>delete_excess_records_for_user\<close> is the name of a table,
  spliced into dynamic SQL. The three quota-bound tables are the names the job
  passes and the ones whose columns the repository shows.
\<close>

datatype entity_table = Companies | Contacts | Job_openings

fun table_name :: "entity_table \<Rightarrow> string" where
  "table_name Companies = ''companies''"
| "table_name Contacts = ''contacts''"
| "table_name Job_openings = ''job_openings''"

fun table_rows :: "entity_table \<Rightarrow> database \<Rightarrow> entity_row list" where
  "table_rows Companies db = companies db"
| "table_rows Contacts db = contacts db"
| "table_rows Job_openings db = job_openings db"

fun table_update :: "entity_table \<Rightarrow> entity_row list \<Rightarrow> database \<Rightarrow> database" where
  "table_update Companies rs db = db\<lparr>companies := rs\<rparr>"
| "table_update Contacts rs db = db\<lparr>contacts := rs\<rparr>"
| "table_update Job_openings rs db = db\<lparr>job_openings := rs\<rparr>"

section \<open>The SQL of part\_000\<close>

text \<open>\<open>... WHERE user_id = u\<close>\<close>

definition user_rows :: "uuid \<Rightarrow> ('a owned_scheme) list \<Rightarrow> ('a owned_scheme) list" where
  "user_rows u rows = filter (\<lambda>r. user_id r = u) rows"

text \<open>
  \<open>SELECT id, ROW_NUMBER() OVER (ORDER BY created_at ASC) as rn FROM t WHERE user_id = u\<close>:
  the user's rows sorted by \<open>created_at\<close>, numbered from 1.
\<close>

definition ranked_rows :: "uuid \<Rightarrow> entity_row list \<Rightarrow> entity_row list" where
  "ranked_rows u rows = sort_key created_at (user_rows u rows)"

definition ranked_items :: "uuid \<Rightarrow> entity_row list \<Rightarrow> (uuid \<times> nat) list" where
  "ranked_items u rows =
     (let sorted_rows = ranked_rows u rows
      in zip (map row_id sorted_rows) [1 ..< Suc (length sorted_rows)])"

text \<open>\<open>SELECT id FROM ranked_items WHERE rn > L\<close>\<close>

definition excess_ids :: "uuid \<Rightarrow> int \<Rightarrow> entity_row list \<Rightarrow> uuid list" where
  "excess_ids u L rows = map fst (filter (\<lambda>(i, rn). int rn > L) (ranked_items u rows))"

text \<open>\<open>DELETE FROM t WHERE id IN (SELECT id FROM ranked_items WHERE rn > L) AND user_id = u\<close>\<close>

definition delete_excess :: "uuid \<Rightarrow> int \<Rightarrow> entity_row list \<Rightarrow> entity_row list" where
  "delete_excess u L rows =
     filter (\<lambda>r. \<not> (row_id r \<in> set (excess_ids u L rows) \<and> user_id r = u)) rows"

text \<open>
  What a PL/pgSQL function hands back to its caller. Both functions of part\_000 are
  declared \<open>RETURNS VOID\<close>.
\<close>

datatype sql_value = Void | Int_value int

text \<open>The messages of the \<open>RAISE NOTICE\<close> statements, with their arguments.\<close>

datatype notice =
    Processing_cleanup uuid "int option"
  | Cleaned_up_follow_ups uuid
  | Cleaned_up_job_opening_contacts uuid
  | Deleted_records uuid int string int
  | No_excess_records uuid string int int
  | Subscription_record_deleted uuid
  | Cleanup_finished

text \<open>
  \<open>delete_excess_records_for_user(p_user_id, p_entity_table_name, p_limit)\<close>.
  The result is the value returned, the notices raised and the store afterwards.
  Integers are unbounded here; \<open>delete_excess_records_for_user_int4\<close> below writes out
  the range of \<open>INT\<close>, and the two agree whenever the count and the number reported
  fit in it.
\<close>

definition delete_excess_records_for_user ::
  "uuid \<Rightarrow> entity_table \<Rightarrow> int \<Rightarrow> database \<Rightarrow> sql_value \<times> notice list \<times> database" where
  "delete_excess_records_for_user p_user_id p_entity_table p_limit db =
     (let row_count = int (length (user_rows p_user_id (table_rows p_entity_table db)))
      in if row_count > p_limit
         then (Void,
               [Deleted_records p_user_id (row_count - p_limit) (table_name p_entity_table) p_limit],
               table_update p_entity_table
                 (delete_excess p_user_id p_limit (table_rows p_entity_table db)) db)
         else (Void,
               [No_excess_records p_user_id (table_name p_entity_table) row_count p_limit],
               db))"

text \<open>
  \<open>p_limit\<close> and \<open>row_count\<close> are declared \<open>INT\<close>, a 32-bit signed integer, and
  PostgreSQL raises \<open>numeric_value_out_of_range\<close> (\<open>integer out of range\<close>) where a
  result leaves that range; it never wraps around.
\<close>

definition fits_int4 :: "int \<Rightarrow> bool" where
  "fits_int4 i = (- 2147483648 \<le> i \<and> i \<le> 2147483647)"

datatype sql_error = Numeric_value_out_of_range

text \<open>
  \<open>delete_excess_records_for_user\<close> with the range of \<open>INT\<close> written out, for a
  \<open>p_limit\<close> that is an \<open>INT\<close>. The count is stored \<open>INTO row_count\<close> (line 83), and
  \<open>row_count - p_limit\<close> is computed for the notice of line 102, after the
  \<open>DELETE\<close> has run; an error there ends the call, no notice is raised and the
  deletion is undone with the failed statement, so the store stays as it was.
\<close>

definition delete_excess_records_for_user_int4 ::
  "uuid \<Rightarrow> entity_table \<Rightarrow> int \<Rightarrow> database \<Rightarrow> sql_error + sql_value \<times> notice list \<times> database" where
  "delete_excess_records_for_user_int4 p_user_id p_entity_table p_limit db =
     (let row_count = int (length (user_rows p_user_id (table_rows p_entity_table db)))
      in if \<not> fits_int4 row_count then Inl Numeric_value_out_of_range
         else if row_count > p_limit
         then (if fits_int4 (row_count - p_limit)
               then Inr (Void,
                 [Deleted_records p_user_id (row_count - p_limit) (table_name p_entity_table) p_limit],
                 table_update p_entity_table
                   (delete_excess p_user_id p_limit (table_rows p_entity_table db)) db)
               else Inl Numeric_value_out_of_range)
         else Inr (Void,
                [No_excess_records p_user_id (table_name p_entity_table) row_count p_limit],
                db))"

text \<open>The constants declared by \<open>daily_user_data_cleanup\<close>.\<close>

definition free_tier_company_limit :: int where
  "free_tier_company_limit = 25"

definition free_tier_contact_limit :: int where
  "free_tier_contact_limit = 25"

definition free_tier_job_opening_limit :: int where
  "free_tier_job_opening_limit = 30"

definition grace_period_days :: int where
  "grace_period_days = 7"

text \<open>
  \<open>ts::date\<close>: the calendar day of an instant, as a day number. The session time
  zone is taken to be UTC, with days of 86400000 ms.
\<close>

definition ms_per_day :: int where
  "ms_per_day = 86400000"

definition date_of :: "int \<Rightarrow> int" where
  "date_of ts = ts div ms_per_day"

text \<open>
  The \<open>WHERE\<close> clause of the loop query:
  \<open>tier = 'premium' AND (plan_expiry_date IS NOT NULL AND
     (plan_expiry_date::date + grace_period_days) < current_date)\<close>.
\<close>

definition cleanup_selects :: "int \<Rightarrow> subscription_row \<Rightarrow> bool" where
  "cleanup_selects current_date us =
     (tier us = ''premium'' \<and>
      (case plan_expiry_date us of
         None \<Rightarrow> False
       | Some ts \<Rightarrow> date_of ts + grace_period_days < current_date))"

text \<open>
  The rows the \<open>FOR usr IN SELECT us.user_id, us.plan_expiry_date ...\<close> loop runs
  over. The query is evaluated once, when the loop starts.
\<close>

definition selected_users :: "int \<Rightarrow> database \<Rightarrow> (uuid \<times> int option) list" where
  "selected_users current_date db =
     map (\<lambda>us. (user_id us, plan_expiry_date us))
       (filter (cleanup_selects current_date) (user_subscriptions db))"

text \<open>
  The common table expression \<open>excess_job_openings_to_delete\<close>, and
  \<open>DELETE FROM t WHERE job_opening_id IN (SELECT id FROM excess_job_openings_to_delete)
     AND user_id = u\<close> for a dependent table \<open>t\<close>.
\<close>

definition excess_job_openings_to_delete :: "uuid \<Rightarrow> database \<Rightarrow> uuid list" where
  "excess_job_openings_to_delete u db =
     excess_ids u free_tier_job_opening_limit (job_openings db)"

definition delete_dependents :: "uuid \<Rightarrow> uuid list \<Rightarrow> dependent_row list \<Rightarrow> dependent_row list" where
  "delete_dependents u ids rows =
     filter (\<lambda>r. \<not> (job_opening_id r \<in> set ids \<and> user_id r = u)) rows"

definition delete_follow_ups_step :: "uuid \<Rightarrow> database \<Rightarrow> database" where
  "delete_follow_ups_step u db =
     db\<lparr>follow_ups := delete_dependents u (excess_job_openings_to_delete u db) (follow_ups db)\<rparr>"

definition delete_job_opening_contacts_step :: "uuid \<Rightarrow> database \<Rightarrow> database" where
  "delete_job_opening_contacts_step u db =
     db\<lparr>job_opening_contacts :=
          delete_dependents u (excess_job_openings_to_delete u db) (job_opening_contacts db)\<rparr>"

text \<open>\<open>DELETE FROM public.user_subscriptions WHERE user_id = u\<close>\<close>

definition delete_subscription_step :: "uuid \<Rightarrow> database \<Rightarrow> database" where
  "delete_subscription_step u db =
     db\<lparr>user_subscriptions := filter (\<lambda>s. user_id s \<noteq> u) (user_subscriptions db)\<rparr>"

text \<open>
  The body of the loop, for one row \<open>usr\<close> of the query. The two common table
  expressions and the Reclaimer's own window are three evaluations over the same
  \<open>job_openings\<close>; here all three read the one list. Where no tie lies at the
  cut-off (\<open>no_tie_across\<close>), every order of the rows selects the same job openings,
  so nothing depends on that.
\<close>

definition cleanup_user :: "uuid \<times> int option \<Rightarrow> database \<Rightarrow> notice list \<times> database" where
  "cleanup_user usr db =
     (let u = fst usr;
          n0 = [Processing_cleanup u (snd usr)];
          db1 = delete_follow_ups_step u db;
          n1 = [Cleaned_up_follow_ups u];
          db2 = delete_job_opening_contacts_step u db1;
          n2 = [Cleaned_up_job_opening_contacts u];
          (r3, n3, db3) = delete_excess_records_for_user u Job_openings free_tier_job_opening_limit db2;
          (r4, n4, db4) = delete_excess_records_for_user u Contacts free_tier_contact_limit db3;
          (r5, n5, db5) = delete_excess_records_for_user u Companies free_tier_company_limit db4;
          db6 = delete_subscription_step u db5;
          n6 = [Subscription_record_deleted u]
      in (n0 @ n1 @ n2 @ n3 @ n4 @ n5 @ n6, db6))"

fun cleanup_loop :: "(uuid \<times> int option) list \<Rightarrow> database \<Rightarrow> notice list \<times> database" where
  "cleanup_loop [] db = ([], db)"
| "cleanup_loop (usr # rest) db =
     (let (n1, db1) = cleanup_user usr db;
          (n2, db2) = cleanup_loop rest db1
      in (n1 @ n2, db2))"

text \<open>\<open>daily_user_data_cleanup()\<close>, run on the day \<open>current_date\<close>.\<close>

definition daily_user_data_cleanup :: "int \<Rightarrow> database \<Rightarrow> sql_value \<times> notice list \<times> database" where
  "daily_user_data_cleanup current_date db =
     (let (ns, db') = cleanup_loop (selected_users current_date db) db
      in (Void, ns @ [Cleanup_finished], db'))"

section \<open>The subscription hook of part\_001\<close>

text \<open>
  A JavaScript \<open>Date\<close> holds an instant in milliseconds or is invalid; a number
  may be \<open>NaN\<close>. The functions of \<open>date-fns\<close> are given as their documentation
  describes them, for a local time zone without clock changes (UTC).
\<close>

datatype js_date = Invalid_Date | Date int

datatype js_number = NaN | Num int

fun startOfDay :: "js_date \<Rightarrow> js_date" where
  "startOfDay Invalid_Date = Invalid_Date"
| "startOfDay (Date t) = Date (t - t mod ms_per_day)"

fun addDays :: "js_date \<Rightarrow> int \<Rightarrow> js_date" where
  "addDays Invalid_Date n = Invalid_Date"
| "addDays (Date t) n = Date (t + n * ms_per_day)"

text \<open>\<open>isFuture(d)\<close> is \<open>d > Date.now()\<close>; the clock reading is the first argument.\<close>

fun isFuture :: "int \<Rightarrow> js_date \<Rightarrow> bool" where
  "isFuture now Invalid_Date = False"
| "isFuture now (Date t) = (t > now)"

text \<open>The number of full days from the second date to the first, truncated towards zero.\<close>

fun differenceInDays :: "js_date \<Rightarrow> js_date \<Rightarrow> js_number" where
  "differenceInDays (Date a) (Date b) = Num (sgn (a - b) * (\<bar>a - b\<bar> div ms_per_day))"
| "differenceInDays _ _ = NaN"

fun Math_max :: "js_number \<Rightarrow> js_number \<Rightarrow> js_number" where
  "Math_max (Num a) (Num b) = Num (max a b)"
| "Math_max _ _ = NaN"

definition GRACE_PERIOD_DAYS :: int where
  "GRACE_PERIOD_DAYS = 7"

datatype SubscriptionTier = Free | Premium

text \<open>
  The subscription object \<open>sub\<close> of lines 81 to 87: \<open>tier\<close> and \<open>status\<close> are the
  strings of the row (the casts check nothing), and \<open>plan_expiry_date\<close> is \<open>null\<close> for a
  null or empty value and \<open>new Date(...)\<close> otherwise, which is \<open>Invalid_Date\<close> for
  text that is no date.
\<close>

type_synonym UserSubscription = "js_date user_subscription"

text \<open>
  Lines 76 to 115: the resolved tier, the grace flag and the days left, from the
  fetched \<open>data\<close> and the clock.
\<close>

definition resolve ::
  "int \<Rightarrow> UserSubscription option \<Rightarrow> SubscriptionTier \<times> bool \<times> js_number option" where
  "resolve now data =
     (case data of
        Some sub \<Rightarrow>
          if tier sub = ''premium'' \<and> status sub = ''active'' then
            (case plan_expiry_date sub of
               Some expiry \<Rightarrow>
                 if isFuture now (startOfDay expiry) then (Premium, False, None)
                 else
                   (let gracePeriodEndDate = addDays (startOfDay expiry) GRACE_PERIOD_DAYS;
                        today = startOfDay (Date now)
                    in if isFuture now gracePeriodEndDate
                          \<or> differenceInDays gracePeriodEndDate today = Num 0
                       then (Free, True,
                             Some (Math_max (Num 0) (differenceInDays gracePeriodEndDate today)))
                       else (Free, False, None))
             | None \<Rightarrow> (Free, False, None))
          else (Free, False, None)
      | None \<Rightarrow> (Free, False, None))"

text \<open>
  The answer of \<open>supabase.from('user_subscriptions').select('*').eq(...).single()\<close>:
  the promise rejects, or resolves to \<open>{ data, error }\<close>.
\<close>

record postgrest_error =
  code :: string
  message :: string

datatype fetch_result =
    Rejects string
  | Resolves "UserSubscription option" "postgrest_error option"

text \<open>What the hook has set when \<open>fetchSubscriptionDetails\<close> is done, and the toasts shown.\<close>

record hook_state =
  currentSubscription :: "UserSubscription option"
  subscriptionLoading :: bool
  effectiveTierForLimits :: SubscriptionTier
  isInGracePeriod :: bool
  daysLeftInGracePeriod :: "js_number option"
  toasts :: "(string \<times> string) list"

text \<open>The body of the \<open>try\<close> block: \<open>Inl\<close> is a thrown error's message.\<close>

definition try_block :: "int \<Rightarrow> fetch_result \<Rightarrow> string + hook_state" where
  "try_block now res =
     (case res of
        Rejects msg \<Rightarrow> Inl msg
      | Resolves data err \<Rightarrow>
          (let resolved =
                 (case resolve now data of (resolvedTier, gracePeriodActive, daysLeftGrace) \<Rightarrow>
                    \<lparr>currentSubscription = data, subscriptionLoading = True,
                     effectiveTierForLimits = resolvedTier, isInGracePeriod = gracePeriodActive,
                     daysLeftInGracePeriod = daysLeftGrace, toasts = []\<rparr>)
           in case err of
                Some e \<Rightarrow> if code e \<noteq> ''PGRST116'' then Inl (message e) else Inr resolved
              | None \<Rightarrow> Inr resolved))"

text \<open>
  \<open>fetchSubscriptionDetails\<close>: \<open>currentUser\<close> is the signed-in user or \<open>null\<close>, \<open>fetch\<close>
  the answer of the store to the query for that user.
\<close>

definition fetchSubscriptionDetails ::
  "uuid option \<Rightarrow> int \<Rightarrow> (uuid \<Rightarrow> fetch_result) \<Rightarrow> hook_state" where
  "fetchSubscriptionDetails currentUser now fetch =
     (case currentUser of
        None \<Rightarrow>
          \<lparr>currentSubscription = None, subscriptionLoading = False,
           effectiveTierForLimits = Free, isInGracePeriod = False,
           daysLeftInGracePeriod = None, toasts = []\<rparr>
      | Some uid \<Rightarrow>
          (case try_block now (fetch uid) of
             Inr st \<Rightarrow> st\<lparr>subscriptionLoading := False\<rparr>
           | Inl msg \<Rightarrow>
               \<lparr>currentSubscription = None, subscriptionLoading = False,
                effectiveTierForLimits = Free, isInGracePeriod = False,
                daysLeftInGracePeriod = None,
                toasts = [(''Error Fetching Subscription Status'', msg)]\<rparr>))"

text \<open>
  How a stored row reaches the hook: the instant of \<open>plan_expiry_date\<close> travels as
  text and \<open>new Date\<close> reads it back.
\<close>

definition sub_of_row :: "subscription_row \<Rightarrow> UserSubscription" where
  "sub_of_row us =
     \<lparr>user_id = user_id us, tier = tier us, status = status us,
      plan_expiry_date = map_option Date (plan_expiry_date us)\<rparr>"

text \<open>
  The browser's calendar. \<open>date-fns\<close> works in the local time zone of the browser,
  taken here to be a fixed \<open>off\<close> milliseconds ahead of UTC, the zone of the store's
  \<open>::date\<close> and \<open>current_date\<close> (\<open>date_of\<close>). \<open>local_day\<close> is the browser's calendar day
  of an instant, and \<open>startOfDay_in\<close> the local midnight that begins it; \<open>addDays\<close>,
  \<open>isFuture\<close> and \<open>differenceInDays\<close> are as above, since local midnights are whole
  days apart. At \<open>off = 0\<close> these are \<open>date_of\<close> and \<open>startOfDay\<close>.
\<close>

definition local_day :: "int \<Rightarrow> int \<Rightarrow> int" where
  "local_day off t = (t + off) div ms_per_day"

fun startOfDay_in :: "int \<Rightarrow> js_date \<Rightarrow> js_date" where
  "startOfDay_in off Invalid_Date = Invalid_Date"
| "startOfDay_in off (Date t) = Date (t - (t + off) mod ms_per_day)"

text \<open>Lines 76 to 115 in a browser whose zone is \<open>off\<close> ahead of UTC.\<close>

definition resolve_in ::
  "int \<Rightarrow> int \<Rightarrow> UserSubscription option \<Rightarrow> SubscriptionTier \<times> bool \<times> js_number option" where
  "resolve_in off now data =
     (case data of
        Some sub \<Rightarrow>
          if tier sub = ''premium'' \<and> status sub = ''active'' then
            (case plan_expiry_date sub of
               Some expiry \<Rightarrow>
                 if isFuture now (startOfDay_in off expiry) then (Premium, False, None)
                 else
                   (let gracePeriodEndDate = addDays (startOfDay_in off expiry) GRACE_PERIOD_DAYS;
                        today = startOfDay_in off (Date now)
                    in if isFuture now gracePeriodEndDate
                          \<or> differenceInDays gracePeriodEndDate today = Num 0
                       then (Free, True,
                             Some (Math_max (Num 0) (differenceInDays gracePeriodEndDate today)))
                       else (Free, False, None))
             | None \<Rightarrow> (Free, False, None))
          else (Free, False, None)
      | None \<Rightarrow> (Free, False, None))"

definition try_block_in :: "int \<Rightarrow> int \<Rightarrow> fetch_result \<Rightarrow> string + hook_state" where
  "try_block_in off now res =
     (case res of
        Rejects msg \<Rightarrow> Inl msg
      | Resolves data err \<Rightarrow>
          (let resolved =
                 (case resolve_in off now data of (resolvedTier, gracePeriodActive, daysLeftGrace) \<Rightarrow>
                    \<lparr>currentSubscription = data, subscriptionLoading = True,
                     effectiveTierForLimits = resolvedTier, isInGracePeriod = gracePeriodActive,
                     daysLeftInGracePeriod = daysLeftGrace, toasts = []\<rparr>)
           in case err of
                Some e \<Rightarrow> if code e \<noteq> ''PGRST116'' then Inl (message e) else Inr resolved
              | None \<Rightarrow> Inr resolved))"

definition fetchSubscriptionDetails_in ::
  "int \<Rightarrow> uuid option \<Rightarrow> int \<Rightarrow> (uuid \<Rightarrow> fetch_result) \<Rightarrow> hook_state" where
  "fetchSubscriptionDetails_in off currentUser now fetch =
     (case currentUser of
        None \<Rightarrow>
          \<lparr>currentSubscription = None, subscriptionLoading = False,
           effectiveTierForLimits = Free, isInGracePeriod = False,
           daysLeftInGracePeriod = None, toasts = []\<rparr>
      | Some uid \<Rightarrow>
          (case try_block_in off now (fetch uid) of
             Inr st \<Rightarrow> st\<lparr>subscriptionLoading := False\<rparr>
           | Inl msg \<Rightarrow>
               \<lparr>currentSubscription = None, subscriptionLoading = False,
                effectiveTierForLimits = Free, isInGracePeriod = False,
                daysLeftInGracePeriod = None,
                toasts = [(''Error Fetching Subscription Status'', msg)]\<rparr>))"

text \<open>
  No tie at the cut-off: in the user's ranking, every record among the first \<open>L\<close> is
  strictly older than every record ranked beyond \<open>L\<close>. Ties on either side alone
  are allowed.
\<close>

definition no_tie_across :: "uuid \<Rightarrow> int \<Rightarrow> entity_row list \<Rightarrow> bool" where
  "no_tie_across u L rows =
     (\<forall>a \<in> set (take (nat L) (ranked_rows u rows)).
        \<forall>b \<in> set (drop (nat L) (ranked_rows u rows)). created_at a < created_at b)"

section \<open>Example stores\<close>

definition example_companies :: "entity_row list" where
  "example_companies =
     [\<lparr>user_id = 1, row_id = 10, created_at = 300\<rparr>,
      \<lparr>user_id = 2, row_id = 11, created_at = 50\<rparr>,
      \<lparr>user_id = 1, row_id = 12, created_at = 100\<rparr>,
      \<lparr>user_id = 1, row_id = 13, created_at = 200\<rparr>]"

definition example_db :: database where
  "example_db =
     \<lparr>user_subscriptions = [], companies = example_companies, contacts = [],
      job_openings = [], follow_ups = [], job_opening_contacts = []\<rparr>"

definition tied_first :: "entity_row list" where
  "tied_first =
     [\<lparr>user_id = 1, row_id = 1, created_at = 100\<rparr>,
      \<lparr>user_id = 1, row_id = 2, created_at = 100\<rparr>]"

definition tied_second :: "entity_row list" where
  "tied_second =
     [\<lparr>user_id = 1, row_id = 2, created_at = 100\<rparr>,
      \<lparr>user_id = 1, row_id = 1, created_at = 100\<rparr>]"

definition store_of_companies :: "entity_row list \<Rightarrow> database" where
  "store_of_companies rows =
     \<lparr>user_subscriptions = [], companies = rows, contacts = [],
      job_openings = [], follow_ups = [], job_opening_contacts = []\<rparr>"

section \<open>Notions used to state the claims\<close>

text \<open>
  The record set of one user: every table cut down to the rows that user owns.
\<close>

definition owned_by :: "uuid \<Rightarrow> database \<Rightarrow> database" where
  "owned_by u db =
     \<lparr>user_subscriptions = user_rows u (user_subscriptions db),
      companies = user_rows u (companies db),
      contacts = user_rows u (contacts db),
      job_openings = user_rows u (job_openings db),
      follow_ups = user_rows u (follow_ups db),
      job_opening_contacts = user_rows u (job_opening_contacts db)\<rparr>"

text \<open>The store a run of the job leaves.\<close>

definition store_after_cleanup :: "int \<Rightarrow> database \<Rightarrow> database" where
  "store_after_cleanup current_date db = snd (snd (daily_user_data_cleanup current_date db))"


definition job_example :: database where
  "job_example =
     \<lparr>user_subscriptions =
        [\<lparr>user_id = 1, tier = ''premium'', status = ''active'', plan_expiry_date = Some 0\<rparr>,
         \<lparr>user_id = 2, tier = ''premium'', status = ''active'',
          plan_expiry_date = Some (20 * ms_per_day)\<rparr>],
      companies = example_companies,
      contacts = [],
      job_openings =
        map (\<lambda>i. \<lparr>user_id = 1, row_id = i, created_at = int i\<rparr>) [0 ..< 35]
        @ [\<lparr>user_id = 2, row_id = 100, created_at = 5\<rparr>],
      follow_ups =
        map (\<lambda>i. \<lparr>user_id = 1, dep_id = 200 + i, job_opening_id = i\<rparr>) [0 ..< 35]
        @ [\<lparr>user_id = 2, dep_id = 300, job_opening_id = 100\<rparr>],
      job_opening_contacts = []\<rparr>"

text \<open>The three values the Resolver puts out.\<close>

definition resolver_output :: "hook_state \<Rightarrow> SubscriptionTier \<times> bool \<times> js_number option" where
  "resolver_output st = (effectiveTierForLimits st, isInGracePeriod st, daysLeftInGracePeriod st)"

text \<open>
  A record the Resolver cannot read as a subscription: a tier that is not one of the
  two tiers, a status outside the status values of \<open>UserSubscription\<close> (a type
  declared outside the files at hand, so the set is a parameter), or an expiry date
  that does not parse.
\<close>

definition malformed :: "(string \<Rightarrow> bool) \<Rightarrow> UserSubscription \<Rightarrow> bool" where
  "malformed valid_status sub =
     (tier sub \<notin> {''free'', ''premium''}
      \<or> \<not> valid_status (status sub)
      \<or> plan_expiry_date sub = Some Invalid_Date)"

definition premium_row :: "uuid \<Rightarrow> int option \<Rightarrow> subscription_row" where
  "premium_row u expiry =
     \<lparr>user_id = u, tier = ''premium'', status = ''active'', plan_expiry_date = expiry\<rparr>"


definition null_expiry_example :: database where
  "null_expiry_example =
     \<lparr>user_subscriptions = [premium_row 3 None, premium_row 1 (Some 0)],
      companies = example_companies, contacts = [], job_openings = [],
      follow_ups = [], job_opening_contacts = []\<rparr>"

definition ties_inside_first :: "entity_row list" where
  "ties_inside_first =
     [\<lparr>user_id = 1, row_id = 1, created_at = 100\<rparr>,
      \<lparr>user_id = 1, row_id = 2, created_at = 100\<rparr>,
      \<lparr>user_id = 1, row_id = 3, created_at = 200\<rparr>,
      \<lparr>user_id = 1, row_id = 4, created_at = 200\<rparr>]"

definition ties_inside_second :: "entity_row list" where
  "ties_inside_second =
     [\<lparr>user_id = 1, row_id = 4, created_at = 200\<rparr>,
      \<lparr>user_id = 1, row_id = 2, created_at = 100\<rparr>,
      \<lparr>user_id = 1, row_id = 3, created_at = 200\<rparr>,
      \<lparr>user_id = 1, row_id = 1, created_at = 100\<rparr>]"


text \<open>A browser eight hours behind UTC, an expiry instant and a later clock reading.\<close>

definition pacific_offset :: int where
  "pacific_offset = - 28800000"

definition expiry_instant :: int where
  "expiry_instant = 10 * 86400000 + 43200000"

definition evening_instant :: int where
  "evening_instant = 18 * 86400000 + 7200000"

text \<open>The store answers the hook with the one premium, active row of the user.\<close>

definition fetch_premium :: "int option \<Rightarrow> uuid \<Rightarrow> fetch_result" where
  "fetch_premium expiry uid = Resolves (Some (sub_of_row (premium_row uid expiry))) None"

section \<open>Ranking and deletion: basic facts\<close>

lemma excess_ids_offset:
  "map fst (filter (\<lambda>(i, rn). int rn > L) (zip xs [k ..< k + length xs]))
     = drop (nat (L + 1 - int k)) xs"
proof (induction xs arbitrary: k)
  case Nil
  show ?case by simp
next
  case (Cons x xs)
  have up: "[k ..< k + length (x # xs)] = k # [Suc k ..< Suc k + length xs]"
    by (subst upt_rec) simp
  show ?case
  proof (cases "int k > L")
    case True
    then have "nat (L + 1 - int k) = 0" "nat (L + 1 - int (Suc k)) = 0" by simp_all
    with True Cons.IH [of "Suc k"] up show ?thesis by simp
  next
    case False
    then have "nat (L + 1 - int k) = Suc (nat (L + 1 - int (Suc k)))" by simp
    with False Cons.IH [of "Suc k"] up show ?thesis by simp
  qed
qed

lemma excess_ids_drop:
  "excess_ids u L rows = drop (nat L) (map row_id (ranked_rows u rows))"
proof -
  let ?ids = "map row_id (ranked_rows u rows)"
  have "[1 ..< Suc (length (ranked_rows u rows))] = [1 ..< 1 + length ?ids]" by simp
  then have "excess_ids u L rows
      = map fst (filter (\<lambda>(i, rn). int rn > L) (zip ?ids [1 ..< 1 + length ?ids]))"
    by (simp add: excess_ids_def ranked_items_def Let_def)
  also have "\<dots> = drop (nat (L + 1 - int 1)) ?ids" by (rule excess_ids_offset)
  finally show ?thesis by simp
qed

lemma user_rows_delete_excess_other:
  "v \<noteq> u \<Longrightarrow> user_rows v (delete_excess u L rows) = user_rows v rows"
  by (auto simp: user_rows_def delete_excess_def intro: filter_cong)

lemma user_rows_delete_excess_self:
  "user_rows u (delete_excess u L rows)
     = filter (\<lambda>r. row_id r \<notin> set (excess_ids u L rows)) (user_rows u rows)"
  by (auto simp: user_rows_def delete_excess_def intro: filter_cong)

lemma filter_not_in_drop:
  assumes "distinct (map f xs)"
  shows "filter (\<lambda>r. f r \<notin> set (drop k (map f xs))) xs = take k xs"
proof -
  let ?P = "\<lambda>r. f r \<notin> set (drop k (map f xs))"
  from assms have "distinct (map f (take k xs) @ map f (drop k xs))"
    by (simp flip: map_append)
  then have disj: "f ` set (take k xs) \<inter> f ` set (drop k xs) = {}" by simp
  have "filter ?P (take k xs) = take k xs"
    using disj by (auto simp: drop_map filter_id_conv)
  moreover have "filter ?P (drop k xs) = []"
    by (auto simp: drop_map filter_empty_conv)
  ultimately have "filter ?P (take k xs) @ filter ?P (drop k xs) = take k xs" by simp
  then have "filter ?P (take k xs @ drop k xs) = take k xs" by (simp only: filter_append)
  then show ?thesis by (simp only: append_take_drop_id)
qed

lemma distinct_ids_ranked:
  "distinct (map row_id (user_rows u rows)) \<Longrightarrow> distinct (map row_id (ranked_rows u rows))"
proof -
  assume d: "distinct (map row_id (user_rows u rows))"
  have "mset (map row_id (ranked_rows u rows)) = mset (map row_id (user_rows u rows))"
    by (simp add: ranked_rows_def)
  then show ?thesis using d by (metis mset_eq_imp_distinct_iff)
qed

lemma ranked_rows_delete_excess:
  assumes "distinct (map row_id (user_rows u rows))"
  shows "ranked_rows u (delete_excess u L rows) = take (nat L) (ranked_rows u rows)"
proof -
  let ?P = "\<lambda>r. row_id r \<notin> set (excess_ids u L rows)"
  have "ranked_rows u (delete_excess u L rows) = sort_key created_at (filter ?P (user_rows u rows))"
    by (simp add: ranked_rows_def user_rows_delete_excess_self)
  also have "\<dots> = filter ?P (ranked_rows u rows)"
    by (simp add: ranked_rows_def filter_sort)
  also have "\<dots> = take (nat L) (ranked_rows u rows)"
    unfolding excess_ids_drop
    by (rule filter_not_in_drop) (rule distinct_ids_ranked [OF assms])
  finally show ?thesis .
qed

lemma length_ranked_rows [simp]: "length (ranked_rows u rows) = length (user_rows u rows)"
  by (simp add: ranked_rows_def)

lemma mset_ranked_rows [simp]: "mset (ranked_rows u rows) = mset (user_rows u rows)"
  by (simp add: ranked_rows_def)

lemma set_ranked_rows [simp]: "set (ranked_rows u rows) = set (user_rows u rows)"
  by (simp add: ranked_rows_def)

lemma sorted_ranked_rows: "sorted (map created_at (ranked_rows u rows))"
  by (simp add: ranked_rows_def)

lemma user_rows_ranked_rows [simp]: "user_rows u (ranked_rows u rows) = ranked_rows u rows"
  by (simp add: user_rows_def ranked_rows_def filter_sort [symmetric])

lemma every_peer_order_reachable:
  assumes "mset rs = mset (user_rows u rows)" and "sorted (map created_at rs)"
  shows "ranked_rows u rs = rs"
proof -
  have "set rs = set (user_rows u rows)" using assms(1) by (rule mset_eq_setD)
  then have "\<forall>r \<in> set rs. user_id r = u" by (simp add: user_rows_def)
  then have "user_rows u rs = rs" by (simp add: user_rows_def filter_id_conv)
  then show ?thesis using assms(2) by (simp add: ranked_rows_def sort_key_id_if_sorted)
qed

lemma length_user_rows_delete_excess:
  assumes "distinct (map row_id (user_rows u rows))"
  shows "length (user_rows u (delete_excess u L rows)) = min (nat L) (length (user_rows u rows))"
proof -
  have "length (user_rows u (delete_excess u L rows)) = length (ranked_rows u (delete_excess u L rows))"
    by simp
  also have "\<dots> = length (take (nat L) (ranked_rows u rows))"
    by (simp only: ranked_rows_delete_excess [OF assms])
  finally show ?thesis by simp
qed

lemma length_split_user:
  "length rows = length (user_rows u rows) + length (filter (\<lambda>r. user_id r \<noteq> u) rows)"
  unfolding user_rows_def by (rule sum_length_filter_compl [symmetric])

lemma others_delete_excess:
  "filter (\<lambda>r. user_id r \<noteq> u) (delete_excess u L rows) = filter (\<lambda>r. user_id r \<noteq> u) rows"
  by (auto simp: delete_excess_def intro: filter_cong)

lemma length_delete_excess:
  assumes "distinct (map row_id (user_rows u rows))"
  shows "int (length rows) - int (length (delete_excess u L rows))
           = max 0 (int (length (user_rows u rows)) - int (nat L))"
proof -
  have "length rows = length (user_rows u rows) + length (filter (\<lambda>r. user_id r \<noteq> u) rows)"
    by (rule length_split_user)
  moreover have "length (delete_excess u L rows)
      = min (nat L) (length (user_rows u rows)) + length (filter (\<lambda>r. user_id r \<noteq> u) rows)"
    using length_split_user [of "delete_excess u L rows" u]
    by (simp only: others_delete_excess length_user_rows_delete_excess [OF assms])
  ultimately show ?thesis by linarith
qed

lemma delete_excess_noop:
  assumes "int (length (user_rows u rows)) \<le> L"
  shows "delete_excess u L rows = rows"
proof -
  from assms have "excess_ids u L rows = []" by (simp add: excess_ids_drop)
  then show ?thesis by (simp add: delete_excess_def)
qed

lemma kept_older_than_deleted:
  assumes "k \<in> set (take m (ranked_rows u rows))" and "d \<in> set (drop m (ranked_rows u rows))"
  shows "created_at k \<le> created_at d"
proof -
  have "sorted (map created_at (take m (ranked_rows u rows)) @ map created_at (drop m (ranked_rows u rows)))"
    using sorted_ranked_rows [of u rows] by (simp flip: map_append)
  with assms show ?thesis by (auto simp: sorted_append)
qed

lemma table_rows_update [simp]: "table_rows e (table_update e rs db) = rs"
  by (cases e) simp_all

lemma reclaim_table:
  "table_rows e (snd (snd (delete_excess_records_for_user u e L db)))
     = delete_excess u L (table_rows e db)"
  by (simp add: delete_excess_records_for_user_def Let_def delete_excess_noop)

lemma mset_delete_excess:
  assumes "distinct (map row_id (user_rows u rows))"
  shows "mset rows = mset (delete_excess u L rows) + mset (drop (nat L) (ranked_rows u rows))"
proof -
  let ?others = "filter (\<lambda>r. user_id r \<noteq> u)"
  have split: "mset xs = mset (user_rows u xs) + mset (?others xs)" for xs :: "entity_row list"
    by (simp add: user_rows_def)
  have "mset (user_rows u rows) = mset (ranked_rows u rows)" by simp
  also have "\<dots> = mset (take (nat L) (ranked_rows u rows)) + mset (drop (nat L) (ranked_rows u rows))"
    by (metis append_take_drop_id mset_append)
  also have "take (nat L) (ranked_rows u rows) = ranked_rows u (delete_excess u L rows)"
    by (simp add: ranked_rows_delete_excess [OF assms])
  finally have "mset (user_rows u rows)
      = mset (user_rows u (delete_excess u L rows)) + mset (drop (nat L) (ranked_rows u rows))"
    by simp
  then show ?thesis
    using split [of rows] split [of "delete_excess u L rows"]
    by (simp add: others_delete_excess ac_simps)
qed

section \<open>The Excess Record Reclaimer\<close>

text \<open>
  C1. One run of the Reclaimer for user \<open>u\<close>, table \<open>e\<close> and limit \<open>L\<close>, where the
  user owns \<open>n\<close> records: the table loses exactly \<open>max(0, n - L)\<close> rows, the user is
  left with \<open>min(L, n)\<close>, the ranking of what is left is the first \<open>L\<close> ranks of the
  ranking before (the \<open>L\<close> oldest by ascending \<open>created_at\<close>), the rows that went are
  exactly those ranked beyond \<open>L\<close>, no retained record is newer than a deleted one, and
  for \<open>n \<le> L\<close> the store is unchanged. Ids are unique among the user's rows (\<open>id\<close> is
  the key of the table) and the limit is a quota, so not negative.
\<close>

theorem reclaimer_keeps_oldest:
  assumes "distinct (map row_id (user_rows u (table_rows e db)))" and "0 \<le> L"
  shows "let before = table_rows e db;
             after = table_rows e (snd (snd (delete_excess_records_for_user u e L db)));
             n = int (length (user_rows u before))
         in int (length before) - int (length after) = max 0 (n - L)
          \<and> int (length (user_rows u after)) = min L n
          \<and> ranked_rows u after = take (nat L) (ranked_rows u before)
          \<and> mset (user_rows u after) = mset (take (nat L) (ranked_rows u before))
          \<and> mset before = mset after + mset (drop (nat L) (ranked_rows u before))
          \<and> (\<forall>k \<in> set (user_rows u after). \<forall>d \<in> set (drop (nat L) (ranked_rows u before)).
                created_at k \<le> created_at d)
          \<and> (n \<le> L \<longrightarrow> snd (snd (delete_excess_records_for_user u e L db)) = db)"
proof -
  let ?before = "table_rows e db"
  let ?db' = "snd (snd (delete_excess_records_for_user u e L db))"
  let ?after = "table_rows e ?db'"
  have after: "?after = delete_excess u L ?before" by (rule reclaim_table)
  have ranked: "ranked_rows u ?after = take (nat L) (ranked_rows u ?before)"
    unfolding after by (rule ranked_rows_delete_excess [OF assms(1)])
  have c1: "int (length ?before) - int (length ?after)
      = max 0 (int (length (user_rows u ?before)) - L)"
    unfolding after using length_delete_excess [OF assms(1), of L] assms(2) by simp
  have c2: "int (length (user_rows u ?after)) = min L (int (length (user_rows u ?before)))"
    unfolding after using length_user_rows_delete_excess [OF assms(1), of L] assms(2) by simp
  have c4: "mset (user_rows u ?after) = mset (take (nat L) (ranked_rows u ?before))"
    using ranked mset_ranked_rows [of u ?after] by simp
  have c5: "mset ?before = mset ?after + mset (drop (nat L) (ranked_rows u ?before))"
    unfolding after by (rule mset_delete_excess [OF assms(1)])
  have c6: "\<forall>k \<in> set (user_rows u ?after). \<forall>d \<in> set (drop (nat L) (ranked_rows u ?before)).
      created_at k \<le> created_at d"
  proof (intro ballI)
    fix k d
    assume "k \<in> set (user_rows u ?after)" and d: "d \<in> set (drop (nat L) (ranked_rows u ?before))"
    then have "k \<in> set (take (nat L) (ranked_rows u ?before))"
      using ranked set_ranked_rows [of u ?after] by simp
    then show "created_at k \<le> created_at d" using d by (rule kept_older_than_deleted)
  qed
  have c7: "int (length (user_rows u ?before)) \<le> L \<longrightarrow> ?db' = db"
    by (simp add: delete_excess_records_for_user_def Let_def)
  from c1 c2 ranked c4 c5 c6 c7 show ?thesis unfolding Let_def by blast
qed

theorem reclaimer_keeps_oldest_witness:
  "distinct (map row_id (user_rows 1 (table_rows Companies example_db)))
   \<and> ranked_rows 1 (table_rows Companies example_db)
       = [\<lparr>user_id = 1, row_id = 12, created_at = 100\<rparr>,
          \<lparr>user_id = 1, row_id = 13, created_at = 200\<rparr>,
          \<lparr>user_id = 1, row_id = 10, created_at = 300\<rparr>]
   \<and> ranked_rows 1 (table_rows Companies
        (snd (snd (delete_excess_records_for_user 1 Companies 2 example_db))))
       = [\<lparr>user_id = 1, row_id = 12, created_at = 100\<rparr>,
          \<lparr>user_id = 1, row_id = 13, created_at = 200\<rparr>]
   \<and> int (length (table_rows Companies example_db))
       - int (length (table_rows Companies
           (snd (snd (delete_excess_records_for_user 1 Companies 2 example_db))))) = 1"
proof -
  have d: "distinct (map row_id (user_rows 1 (table_rows Companies example_db)))"
    by (simp add: example_db_def example_companies_def user_rows_def)
  have r: "ranked_rows 1 (table_rows Companies example_db)
       = [\<lparr>user_id = 1, row_id = 12, created_at = 100\<rparr>,
          \<lparr>user_id = 1, row_id = 13, created_at = 200\<rparr>,
          \<lparr>user_id = 1, row_id = 10, created_at = 300\<rparr>]"
    by (simp add: example_db_def example_companies_def user_rows_def ranked_rows_def)
  have n: "length (user_rows 1 (table_rows Companies example_db)) = 3"
    by (simp add: example_db_def example_companies_def user_rows_def)
  from reclaimer_keeps_oldest [OF d, of 2] d r n show ?thesis
    by (simp add: Let_def)
qed

lemma ranked_rows_delete_excess_filter:
  "ranked_rows u (delete_excess u L rows)
     = filter (\<lambda>r. row_id r \<notin> set (excess_ids u L rows)) (ranked_rows u rows)"
  by (simp add: ranked_rows_def user_rows_delete_excess_self filter_sort)

lemma length_user_rows_delete_excess_le:
  "length (user_rows u (delete_excess u L rows)) \<le> nat L"
proof -
  let ?P = "\<lambda>r. row_id r \<notin> set (drop (nat L) (map row_id (ranked_rows u rows)))"
  let ?rs = "ranked_rows u rows"
  have "filter ?P (drop (nat L) ?rs) = []"
    by (auto simp: drop_map filter_empty_conv)
  then have "filter ?P (take (nat L) ?rs @ drop (nat L) ?rs) = filter ?P (take (nat L) ?rs)"
    by (simp only: filter_append append_Nil2)
  then have "filter ?P ?rs = filter ?P (take (nat L) ?rs)"
    by (simp only: append_take_drop_id)
  then have "ranked_rows u (delete_excess u L rows) = filter ?P (take (nat L) ?rs)"
    by (simp only: ranked_rows_delete_excess_filter excess_ids_drop)
  then have "length (ranked_rows u (delete_excess u L rows)) \<le> length (take (nat L) ?rs)"
    by (simp only: length_filter_le)
  then show ?thesis by simp
qed

lemma excess_ids_after_delete: "excess_ids u L (delete_excess u L rows) = []"
  using length_user_rows_delete_excess_le [of u L rows] by (simp add: excess_ids_drop)

lemma delete_excess_idem: "delete_excess u L (delete_excess u L rows) = delete_excess u L rows"
  by (simp add: delete_excess_def [of u L "delete_excess u L rows"] excess_ids_after_delete)

lemma store_after_reclaimer:
  "snd (snd (delete_excess_records_for_user u e L db))
     = table_update e (delete_excess u L (table_rows e db)) db"
proof (cases "int (length (user_rows u (table_rows e db))) > L")
  case True
  then show ?thesis by (simp add: delete_excess_records_for_user_def)
next
  case False
  then have "delete_excess u L (table_rows e db) = table_rows e db"
    by (simp add: delete_excess_noop)
  moreover have "table_update e (table_rows e db) db = db" by (cases e) simp_all
  ultimately show ?thesis using False by (simp add: delete_excess_records_for_user_def)
qed

lemma table_update_twice [simp]: "table_update e rs (table_update e rs' db) = table_update e rs db"
  by (cases e) simp_all


text \<open>
  C6, as stated. The Reclaimer is declared \<open>RETURNS VOID\<close>: on a store where it
  deletes one record the value it returns is not that count.
\<close>

theorem reclaimer_returns_count_counterexample:
  "int (length (companies example_db))
     - int (length (companies (snd (snd (delete_excess_records_for_user 1 Companies 2 example_db))))) = 1
   \<and> fst (delete_excess_records_for_user 1 Companies 2 example_db) \<noteq> Int_value 1"
  by (simp add: delete_excess_records_for_user_def delete_excess_def excess_ids_drop ranked_rows_def
      user_rows_def example_db_def example_companies_def)

text \<open>
  C6, amended. The Reclaimer returns no value and reports through a notice. For a
  limit \<open>L\<close> that is an \<open>INT\<close> and a count \<open>n\<close>: when \<open>n\<close> exceeds \<open>L\<close> and \<open>n - L\<close> fits
  in an \<open>INT\<close> (as it does for every limit that is not negative), the notice gives
  \<open>n - L\<close> as the number of records deleted, which is the number that left the table
  when the ids are unique and the limit is not negative. When \<open>n \<le> L\<close> nothing is
  deleted and the notice says that there are no excess records, giving the count and
  the limit. When \<open>n - L\<close> does not fit (limits near the lower end of \<open>INT\<close>), or the
  count itself does not, the call fails with \<open>integer out of range\<close>: no notice, and
  the store is as before. When the numbers fit, the result is that of
  \<open>delete_excess_records_for_user\<close>.
\<close>

theorem reclaimer_reports_by_notice:
  assumes "fits_int4 L"
  shows "let n = int (length (user_rows u (table_rows e db)));
             res = delete_excess_records_for_user_int4 u e L db
         in (\<forall>v ns db'. res = Inr (v, ns, db') \<longrightarrow> v = Void)
          \<and> (fits_int4 n \<and> L < n \<and> fits_int4 (n - L) \<longrightarrow>
                res = Inr (Void, [Deleted_records u (n - L) (table_name e) L],
                           table_update e (delete_excess u L (table_rows e db)) db))
          \<and> (fits_int4 n \<and> L < n \<and> 0 \<le> L
                \<and> distinct (map row_id (user_rows u (table_rows e db))) \<longrightarrow>
                fits_int4 (n - L)
                \<and> int (length (table_rows e db))
                    - int (length (delete_excess u L (table_rows e db))) = n - L)
          \<and> (fits_int4 n \<and> n \<le> L \<longrightarrow>
                res = Inr (Void, [No_excess_records u (table_name e) n L], db))
          \<and> (res = Inl Numeric_value_out_of_range
                \<longleftrightarrow> \<not> fits_int4 n \<or> (L < n \<and> \<not> fits_int4 (n - L)))
          \<and> (fits_int4 n \<and> (L < n \<longrightarrow> fits_int4 (n - L)) \<longrightarrow>
                res = Inr (delete_excess_records_for_user u e L db))"
proof -
  let ?n = "int (length (user_rows u (table_rows e db)))"
  let ?res = "delete_excess_records_for_user_int4 u e L db"
  have a: "\<forall>v ns db'. ?res = Inr (v, ns, db') \<longrightarrow> v = Void"
    by (auto simp: delete_excess_records_for_user_int4_def Let_def split: if_splits)
  have b: "fits_int4 ?n \<and> L < ?n \<and> fits_int4 (?n - L) \<longrightarrow>
      ?res = Inr (Void, [Deleted_records u (?n - L) (table_name e) L],
                  table_update e (delete_excess u L (table_rows e db)) db)"
    by (simp add: delete_excess_records_for_user_int4_def Let_def)
  have c: "fits_int4 ?n \<and> L < ?n \<and> 0 \<le> L
      \<and> distinct (map row_id (user_rows u (table_rows e db))) \<longrightarrow>
      fits_int4 (?n - L)
      \<and> int (length (table_rows e db))
          - int (length (delete_excess u L (table_rows e db))) = ?n - L"
    using length_delete_excess [of u "table_rows e db" L]
    by (auto simp: fits_int4_def)
  have d: "fits_int4 ?n \<and> ?n \<le> L \<longrightarrow>
      ?res = Inr (Void, [No_excess_records u (table_name e) ?n L], db)"
    by (simp add: delete_excess_records_for_user_int4_def Let_def)
  have f: "?res = Inl Numeric_value_out_of_range
      \<longleftrightarrow> \<not> fits_int4 ?n \<or> (L < ?n \<and> \<not> fits_int4 (?n - L))"
    by (simp add: delete_excess_records_for_user_int4_def Let_def)
  have g: "fits_int4 ?n \<and> (L < ?n \<longrightarrow> fits_int4 (?n - L)) \<longrightarrow>
      ?res = Inr (delete_excess_records_for_user u e L db)"
    by (simp add: delete_excess_records_for_user_int4_def delete_excess_records_for_user_def Let_def)
  from a b c d f g show ?thesis unfolding Let_def by blast
qed

theorem reclaimer_reports_by_notice_witness:
  "fits_int4 2 \<and> fits_int4 3 \<and> fits_int4 (- 2147483648)
   \<and> delete_excess_records_for_user_int4 1 Companies 2 example_db
     = Inr (Void, [Deleted_records 1 1 ''companies'' 2],
        example_db\<lparr>companies :=
          [\<lparr>user_id = 2, row_id = 11, created_at = 50\<rparr>,
           \<lparr>user_id = 1, row_id = 12, created_at = 100\<rparr>,
           \<lparr>user_id = 1, row_id = 13, created_at = 200\<rparr>]\<rparr>)
   \<and> delete_excess_records_for_user_int4 1 Companies 3 example_db
     = Inr (Void, [No_excess_records 1 ''companies'' 3 3], example_db)
   \<and> delete_excess_records_for_user_int4 1 Companies (- 2147483648) example_db
     = Inl Numeric_value_out_of_range"
proof -
  have f: "fits_int4 2" "fits_int4 3" "fits_int4 (- 2147483648)"
    by (simp_all add: fits_int4_def)
  have n: "int (length (user_rows 1 (table_rows Companies example_db))) = 3"
    by (simp add: example_db_def example_companies_def user_rows_def)
  have s: "table_update Companies (delete_excess 1 2 (table_rows Companies example_db)) example_db
      = example_db\<lparr>companies :=
          [\<lparr>user_id = 2, row_id = 11, created_at = 50\<rparr>,
           \<lparr>user_id = 1, row_id = 12, created_at = 100\<rparr>,
           \<lparr>user_id = 1, row_id = 13, created_at = 200\<rparr>]\<rparr>"
    by (simp add: delete_excess_def excess_ids_drop ranked_rows_def
        user_rows_def example_db_def example_companies_def)
  from reclaimer_reports_by_notice [OF f(1), of 1 Companies example_db]
    reclaimer_reports_by_notice [OF f(2), of 1 Companies example_db]
    reclaimer_reports_by_notice [OF f(3), of 1 Companies example_db] f n s
  show ?thesis by (simp add: Let_def fits_int4_def)
qed

lemma ranked_keys_cong:
  assumes "mset rows1 = mset rows2"
  shows "map created_at (ranked_rows u rows1) = map created_at (ranked_rows u rows2)"
proof -
  have m: "mset (user_rows u rows1) = mset (user_rows u rows2)"
    using assms by (simp add: user_rows_def)
  have k: "map created_at (ranked_rows u rows) = sort (map created_at (user_rows u rows))" for rows
  proof (rule properties_for_sort [symmetric])
    show "mset (map created_at (ranked_rows u rows)) = mset (map created_at (user_rows u rows))"
      by simp
    show "sorted (map created_at (ranked_rows u rows))" by (rule sorted_ranked_rows)
  qed
  have "mset (map created_at (user_rows u rows1)) = mset (map created_at (user_rows u rows2))"
    using m by simp
  then have "sort (map created_at (user_rows u rows1)) = sort (map created_at (user_rows u rows2))"
    by (intro properties_for_sort) simp_all
  then show ?thesis by (simp only: k)
qed

lemma no_tie_across_keys:
  "no_tie_across u L rows \<longleftrightarrow>
     (\<forall>a \<in> set (take (nat L) (map created_at (ranked_rows u rows))).
        \<forall>b \<in> set (drop (nat L) (map created_at (ranked_rows u rows))). a < b)"
  by (simp add: no_tie_across_def take_map drop_map)

lemma no_tie_across_cong:
  "mset rows1 = mset rows2 \<Longrightarrow> no_tie_across u L rows1 = no_tie_across u L rows2"
  by (simp only: no_tie_across_keys ranked_keys_cong [of rows1 rows2 u])


lemma take_is_filter_below:
  assumes "sorted (map f xs)" and "k < length xs"
    and "\<forall>a \<in> set (take k xs). \<forall>b \<in> set (drop k xs). f a < f b"
  shows "take k xs = filter (\<lambda>x. f x < f (xs ! k)) xs"
proof -
  let ?P = "\<lambda>x. f x < f (xs ! k)"
  have dk: "drop k xs = xs ! k # drop (Suc k) xs"
    using assms(2) by (simp add: Cons_nth_drop_Suc)
  then have in_drop: "xs ! k \<in> set (drop k xs)" by simp
  have "filter ?P (take k xs) = take k xs"
    using assms(3) in_drop by (simp add: filter_id_conv)
  moreover have "filter ?P (drop k xs) = []"
  proof -
    have "sorted (map f (drop k xs))" using assms(1) by (simp add: drop_map [symmetric] sorted_wrt_drop)
    then have "\<forall>b \<in> set (drop k xs). f (xs ! k) \<le> f b"
      by (subst (asm) dk, subst dk) auto
    then show ?thesis by (auto simp: filter_empty_conv)
  qed
  ultimately have "filter ?P (take k xs) @ filter ?P (drop k xs) = take k xs" by simp
  then have "filter ?P (take k xs @ drop k xs) = take k xs" by (simp only: filter_append)
  then show ?thesis by (simp only: append_take_drop_id)
qed

lemma take_ranked_cong:
  assumes m: "mset rows1 = mset rows2" and nt: "no_tie_across u L rows1"
  shows "mset (take (nat L) (ranked_rows u rows1)) = mset (take (nat L) (ranked_rows u rows2))"
proof -
  let ?k = "nat L"
  let ?r1 = "ranked_rows u rows1" and ?r2 = "ranked_rows u rows2"
  have mr: "mset ?r1 = mset ?r2" using m by (simp add: user_rows_def)
  then have len: "length ?r1 = length ?r2" by (rule mset_eq_length)
  show ?thesis
  proof (cases "?k < length ?r1")
    case False
    then show ?thesis using mr len by simp
  next
    case True
    have keys: "map created_at ?r1 = map created_at ?r2" using m by (rule ranked_keys_cong)
    have c: "created_at (?r1 ! ?k) = created_at (?r2 ! ?k)"
      using True len arg_cong [OF keys, of "\<lambda>ks. ks ! ?k"] by simp
    have nt2: "no_tie_across u L rows2" using nt no_tie_across_cong [OF m, of u L] by simp
    have t1: "take ?k ?r1 = filter (\<lambda>x. created_at x < created_at (?r1 ! ?k)) ?r1"
      using nt by (intro take_is_filter_below sorted_ranked_rows True) (simp add: no_tie_across_def)
    have t2: "take ?k ?r2 = filter (\<lambda>x. created_at x < created_at (?r2 ! ?k)) ?r2"
      using nt2 True len
      by (intro take_is_filter_below sorted_ranked_rows) (simp_all add: no_tie_across_def)
    have "mset (take ?k ?r1) = filter_mset (\<lambda>x. created_at x < created_at (?r1 ! ?k)) (mset ?r1)"
      by (subst t1) simp
    also have "\<dots> = filter_mset (\<lambda>x. created_at x < created_at (?r2 ! ?k)) (mset ?r2)"
      by (simp only: mr c)
    also have "\<dots> = mset (take ?k ?r2)" by (subst t2) simp
    finally show ?thesis .
  qed
qed

lemma excess_ids_order_independent:
  assumes m: "mset rows1 = mset rows2" and nt: "no_tie_across u L rows1"
  shows "mset (excess_ids u L rows1) = mset (excess_ids u L rows2)"
proof -
  let ?k = "nat L"
  let ?r1 = "ranked_rows u rows1" and ?r2 = "ranked_rows u rows2"
  have mr: "mset ?r1 = mset ?r2" using m by (simp add: user_rows_def)
  have split: "mset r = mset (take ?k r) + mset (drop ?k r)" for r :: "entity_row list"
    by (metis append_take_drop_id mset_append)
  have "mset (take ?k ?r1) + mset (drop ?k ?r1) = mset (take ?k ?r2) + mset (drop ?k ?r2)"
    using mr split [of ?r1] split [of ?r2] by simp
  then have "mset (drop ?k ?r1) = mset (drop ?k ?r2)"
    by (simp add: take_ranked_cong [OF m nt])
  then have "mset (map row_id (drop ?k ?r1)) = mset (map row_id (drop ?k ?r2))" by simp
  then show ?thesis by (simp only: excess_ids_drop drop_map)
qed

lemma delete_excess_order_independent:
  assumes m: "mset rows1 = mset rows2" and nt: "no_tie_across u L rows1"
  shows "mset (delete_excess u L rows1) = mset (delete_excess u L rows2)"
proof -
  have "set (excess_ids u L rows1) = set (excess_ids u L rows2)"
    using excess_ids_order_independent [OF m nt] by (rule mset_eq_setD)
  then show ?thesis by (simp add: delete_excess_def m)
qed

text \<open>
  C5, as stated. The window orders by \<open>created_at\<close> alone. Two stores holding the
  same two records of equal \<open>created_at\<close>, yielded in different orders: with limit 1
  the Reclaimer deletes record 2 from one and record 1 from the other.
\<close>

theorem reclaimer_ties_counterexample:
  "mset tied_first = mset tied_second
   \<and> excess_ids 1 1 tied_first = [2] \<and> excess_ids 1 1 tied_second = [1]
   \<and> companies (snd (snd (delete_excess_records_for_user 1 Companies 1 (store_of_companies tied_first))))
       = [\<lparr>user_id = 1, row_id = 1, created_at = 100\<rparr>]
   \<and> companies (snd (snd (delete_excess_records_for_user 1 Companies 1 (store_of_companies tied_second))))
       = [\<lparr>user_id = 1, row_id = 2, created_at = 100\<rparr>]"
  by (simp add: store_after_reclaimer delete_excess_def excess_ids_drop ranked_rows_def
      user_rows_def store_of_companies_def tied_first_def tied_second_def)

text \<open>
  C5, amended. When no tie lies at the cut-off, that is when every record among the
  user's first \<open>L\<close> ranks is strictly older than every record ranked beyond \<open>L\<close>, what
  the Reclaimer deletes is a function of the stored records alone: two stores holding
  the same records, in whatever order, lose the same records and keep the same ones.
  Ties among the records kept, or among the records deleted, do no harm; the condition
  itself depends on the stored records only.
\<close>

theorem reclaimer_deterministic_without_ties:
  assumes "mset (table_rows e db1) = mset (table_rows e db2)"
    and "no_tie_across u L (table_rows e db1)"
  shows "let after1 = table_rows e (snd (snd (delete_excess_records_for_user u e L db1)));
             after2 = table_rows e (snd (snd (delete_excess_records_for_user u e L db2)))
         in no_tie_across u L (table_rows e db2)
          \<and> mset (excess_ids u L (table_rows e db1)) = mset (excess_ids u L (table_rows e db2))
          \<and> mset after1 = mset after2
          \<and> mset (table_rows e db1) - mset after1 = mset (table_rows e db2) - mset after2"
proof -
  have nt2: "no_tie_across u L (table_rows e db2)"
    using assms(2) no_tie_across_cong [OF assms(1), of u L] by simp
  have ids: "mset (excess_ids u L (table_rows e db1)) = mset (excess_ids u L (table_rows e db2))"
    using assms by (rule excess_ids_order_independent)
  have "mset (delete_excess u L (table_rows e db1)) = mset (delete_excess u L (table_rows e db2))"
    using assms by (rule delete_excess_order_independent)
  then show ?thesis using nt2 ids assms(1) by (simp add: store_after_reclaimer Let_def)
qed

theorem reclaimer_deterministic_without_ties_witness:
  "mset (table_rows Companies (store_of_companies ties_inside_first))
     = mset (table_rows Companies (store_of_companies ties_inside_second))
   \<and> no_tie_across 1 2 ties_inside_first
   \<and> \<not> distinct (map created_at (user_rows 1 ties_inside_first))
   \<and> mset (excess_ids 1 2 ties_inside_first) = {#3, 4#}
   \<and> mset (excess_ids 1 2 ties_inside_second) = {#3, 4#}"
proof -
  have m: "mset (table_rows Companies (store_of_companies ties_inside_first))
     = mset (table_rows Companies (store_of_companies ties_inside_second))"
    by (simp add: store_of_companies_def ties_inside_first_def ties_inside_second_def)
  have r: "ranked_rows 1 ties_inside_first = ties_inside_first"
    by (simp add: ranked_rows_def user_rows_def ties_inside_first_def)
  have "no_tie_across 1 2 ties_inside_first"
    unfolding no_tie_across_def r by (simp add: ties_inside_first_def)
  then have nt: "no_tie_across 1 2 (table_rows Companies (store_of_companies ties_inside_first))"
    by (simp add: store_of_companies_def)
  have d: "\<not> distinct (map created_at (user_rows 1 ties_inside_first))"
    by (simp add: user_rows_def ties_inside_first_def)
  have e: "mset (excess_ids 1 2 ties_inside_first) = {#3, 4#}"
    unfolding excess_ids_drop r by (simp add: ties_inside_first_def)
  from reclaimer_deterministic_without_ties [OF m nt] m nt d e show ?thesis
    by (simp add: Let_def store_of_companies_def)
qed

section \<open>The Daily Cleanup Job: one user at a time\<close>

lemma cleanup_user_store:
  "snd (cleanup_user usr db) =
     \<lparr>user_subscriptions = filter (\<lambda>s. user_id s \<noteq> fst usr) (user_subscriptions db),
      companies = delete_excess (fst usr) free_tier_company_limit (companies db),
      contacts = delete_excess (fst usr) free_tier_contact_limit (contacts db),
      job_openings = delete_excess (fst usr) free_tier_job_opening_limit (job_openings db),
      follow_ups = delete_dependents (fst usr)
        (excess_ids (fst usr) free_tier_job_opening_limit (job_openings db)) (follow_ups db),
      job_opening_contacts = delete_dependents (fst usr)
        (excess_ids (fst usr) free_tier_job_opening_limit (job_openings db)) (job_opening_contacts db)\<rparr>"
  by (cases db)
    (simp add: cleanup_user_def Let_def split_beta store_after_reclaimer
      delete_follow_ups_step_def delete_job_opening_contacts_step_def
      delete_subscription_step_def excess_job_openings_to_delete_def)

lemma user_rows_idem [simp]: "user_rows u (user_rows u rows) = user_rows u rows"
  by (simp add: user_rows_def)

lemma ranked_rows_user_rows [simp]: "ranked_rows u (user_rows u rows) = ranked_rows u rows"
  by (simp add: ranked_rows_def)

lemma excess_ids_user_rows [simp]: "excess_ids u L (user_rows u rows) = excess_ids u L rows"
  by (simp add: excess_ids_drop)


lemma filter_other_user_rows [simp]: "filter (\<lambda>s. user_id s \<noteq> u) (user_rows u rows) = []"
  by (simp add: user_rows_def)


lemma user_rows_delete_dependents_other:
  "v \<noteq> u \<Longrightarrow> user_rows v (delete_dependents u ids rows) = user_rows v rows"
  by (auto simp: user_rows_def delete_dependents_def intro: filter_cong)



lemma delete_dependents_Nil [simp]: "delete_dependents u [] rows = rows"
  by (simp add: delete_dependents_def)

lemma user_rows_filter_other:
  "v \<noteq> u \<Longrightarrow> user_rows v (filter (\<lambda>s. user_id s \<noteq> u) rows) = user_rows v rows"
  by (auto simp: user_rows_def intro: filter_cong)

lemma user_rows_filter_self [simp]:
  "user_rows u (filter (\<lambda>s. user_id s \<noteq> u) rows) = []"
  by (simp add: user_rows_def)

lemma cleanup_user_frame:
  "v \<noteq> fst usr \<Longrightarrow> owned_by v (snd (cleanup_user usr db)) = owned_by v db"
  by (simp add: owned_by_def cleanup_user_store user_rows_delete_excess_other
      user_rows_delete_dependents_other user_rows_filter_other)



lemma cleanup_loop_frame:
  "v \<notin> fst ` set us \<Longrightarrow> owned_by v (snd (cleanup_loop us db)) = owned_by v db"
proof (induction us arbitrary: db)
  case Nil
  show ?case by simp
next
  case (Cons usr rest)
  then have "v \<noteq> fst usr" and "v \<notin> fst ` set rest" by auto
  then show ?case
    using Cons.IH [of "snd (cleanup_user usr db)"]
    by (simp add: split_beta Let_def cleanup_user_frame)
qed


lemma cleanup_loop_subscriptions:
  "user_subscriptions (snd (cleanup_loop us db))
     = filter (\<lambda>s. user_id s \<notin> fst ` set us) (user_subscriptions db)"
proof (induction us arbitrary: db)
  case Nil
  show ?case by simp
next
  case (Cons usr rest)
  show ?case
    using Cons.IH [of "snd (cleanup_user usr db)"]
    by (auto simp: split_beta Let_def cleanup_user_store intro: filter_cong)
qed

lemma store_after_cleanup_loop:
  "store_after_cleanup today db = snd (cleanup_loop (selected_users today db) db)"
  by (simp add: store_after_cleanup_def daily_user_data_cleanup_def split_beta)

lemma selected_users_iff:
  "u \<in> fst ` set (selected_users today db)
     \<longleftrightarrow> (\<exists>s \<in> set (user_rows u (user_subscriptions db)). cleanup_selects today s)"
  by (auto simp: selected_users_def user_rows_def image_iff)

lemma selected_users_after_cleanup: "selected_users today (store_after_cleanup today db) = []"
proof -
  have "filter (cleanup_selects today) (user_subscriptions (store_after_cleanup today db)) = []"
    unfolding store_after_cleanup_loop cleanup_loop_subscriptions
    by (auto simp: filter_empty_conv selected_users_def image_iff)
  then show ?thesis by (simp add: selected_users_def [of today "store_after_cleanup today db"])
qed

section \<open>The Daily Cleanup Job: whole runs\<close>

lemma reclaimer_frame:
  "v \<noteq> u \<Longrightarrow> owned_by v (snd (snd (delete_excess_records_for_user u e L db))) = owned_by v db"
  by (cases e) (simp_all add: store_after_reclaimer owned_by_def user_rows_delete_excess_other)

lemma job_example_selected: "selected_users 10 job_example = [(1, Some 0)]"
  by (simp add: selected_users_def job_example_def cleanup_selects_def date_of_def
      grace_period_days_def ms_per_day_def)

text \<open>
  C9. A run of the job leaves every record of a user it does not select as it was:
  the subscription rows, companies, contacts, job openings, follow-ups and
  job-opening-contact links that user owns. Every deletion is scoped to the user being
  processed: the loop body for \<open>usr\<close> and the Reclaimer called for \<open>u\<close> leave the records
  of every other user \<open>v\<close> unchanged.
\<close>

theorem cleanup_leaves_other_users_untouched:
  "(v \<notin> fst ` set (selected_users today db) \<longrightarrow>
      owned_by v (store_after_cleanup today db) = owned_by v db)
   \<and> (v \<noteq> fst usr \<longrightarrow> owned_by v (snd (cleanup_user usr db)) = owned_by v db)
   \<and> (v \<noteq> u \<longrightarrow> owned_by v (snd (snd (delete_excess_records_for_user u e L db))) = owned_by v db)"
  by (simp add: store_after_cleanup_loop cleanup_loop_frame cleanup_user_frame reclaimer_frame)

theorem cleanup_leaves_other_users_untouched_witness:
  "2 \<notin> fst ` set (selected_users 10 job_example)
   \<and> owned_by 2 (store_after_cleanup 10 job_example) = owned_by 2 job_example
   \<and> owned_by 2 (snd (cleanup_user (1, Some 0) job_example)) = owned_by 2 job_example
   \<and> owned_by 2 (snd (snd (delete_excess_records_for_user 1 Job_openings 30 job_example)))
       = owned_by 2 job_example"
  using cleanup_leaves_other_users_untouched [of 2 10 job_example "(1, Some 0)" 1 Job_openings 30]
  by (simp add: job_example_selected)

text \<open>
  C4. Running the Reclaimer again right after a run changes nothing: the second call
  deletes no record. A user processed by a run of the job has no subscription row
  afterwards, is not selected by a later run (on whatever day), and that later run
  leaves all records of the user as the first run left them. A second run on the same
  day changes nothing at all.
\<close>

theorem cleanup_idempotent:
  "snd (snd (delete_excess_records_for_user u e L
       (snd (snd (delete_excess_records_for_user u e L db)))))
     = snd (snd (delete_excess_records_for_user u e L db))
   \<and> (u \<in> fst ` set (selected_users today db) \<longrightarrow>
        user_rows u (user_subscriptions (store_after_cleanup today db)) = []
      \<and> u \<notin> fst ` set (selected_users later (store_after_cleanup today db))
      \<and> owned_by u (store_after_cleanup later (store_after_cleanup today db))
          = owned_by u (store_after_cleanup today db))
   \<and> store_after_cleanup today (store_after_cleanup today db) = store_after_cleanup today db"
proof -
  let ?db1 = "store_after_cleanup today db"
  have a: "snd (snd (delete_excess_records_for_user u e L
       (snd (snd (delete_excess_records_for_user u e L db)))))
     = snd (snd (delete_excess_records_for_user u e L db))"
    by (simp add: store_after_reclaimer delete_excess_idem)
  have b: "user_rows u (user_subscriptions ?db1) = []"
    if "u \<in> fst ` set (selected_users today db)"
    using that
    by (auto simp: store_after_cleanup_loop cleanup_loop_subscriptions user_rows_def
        filter_empty_conv)
  have c: "u \<notin> fst ` set (selected_users later ?db1)"
    if "u \<in> fst ` set (selected_users today db)"
    using b [OF that] by (simp add: selected_users_iff)
  have d: "owned_by u (store_after_cleanup later ?db1) = owned_by u ?db1"
    if "u \<in> fst ` set (selected_users today db)"
    using c [OF that] by (simp add: store_after_cleanup_loop [of later] cleanup_loop_frame)
  have e: "store_after_cleanup today ?db1 = ?db1"
    by (simp add: store_after_cleanup_loop [of today ?db1] selected_users_after_cleanup)
  from a b c d e show ?thesis by blast
qed

theorem cleanup_idempotent_witness:
  "1 \<in> fst ` set (selected_users 10 job_example)
   \<and> user_rows 1 (user_subscriptions (store_after_cleanup 10 job_example)) = []
   \<and> 1 \<notin> fst ` set (selected_users 11 (store_after_cleanup 10 job_example))
   \<and> owned_by 1 (store_after_cleanup 11 (store_after_cleanup 10 job_example))
       = owned_by 1 (store_after_cleanup 10 job_example)"
  using cleanup_idempotent [of 1 Companies 25 job_example 10 11]
  by (simp add: job_example_selected)












section \<open>The Subscription State Resolver\<close>

lemma ms_per_day_pos: "0 < ms_per_day"
  by (simp add: ms_per_day_def)

lemma day_lower: "date_of t * ms_per_day \<le> t"
proof -
  have "t = t div ms_per_day * ms_per_day + t mod ms_per_day" by simp
  moreover have "0 \<le> t mod ms_per_day" using ms_per_day_pos by simp
  ultimately show ?thesis unfolding date_of_def by linarith
qed

lemma day_upper: "t < (date_of t + 1) * ms_per_day"
proof -
  have "t = t div ms_per_day * ms_per_day + t mod ms_per_day" by simp
  moreover have "t mod ms_per_day < ms_per_day" using ms_per_day_pos by simp
  moreover have "(t div ms_per_day + 1) * ms_per_day = t div ms_per_day * ms_per_day + ms_per_day"
    by (simp add: algebra_simps)
  ultimately show ?thesis unfolding date_of_def by linarith
qed

lemma day_start_future: "now < e * ms_per_day \<longleftrightarrow> date_of now < e"
proof
  assume a: "now < e * ms_per_day"
  show "date_of now < e"
  proof (rule ccontr)
    assume "\<not> date_of now < e"
    then have "e * ms_per_day \<le> date_of now * ms_per_day"
      using ms_per_day_pos by (simp add: mult_right_mono)
    with day_lower [of now] a show False by linarith
  qed
next
  assume "date_of now < e"
  then have "(date_of now + 1) * ms_per_day \<le> e * ms_per_day"
    using ms_per_day_pos by (simp add: mult_right_mono)
  with day_upper [of now] show "now < e * ms_per_day" by linarith
qed

lemma startOfDay_date_of: "startOfDay (Date t) = Date (date_of t * ms_per_day)"
  by (simp add: date_of_def minus_mod_eq_div_mult)

lemma differenceInDays_starts:
  "differenceInDays (Date (a * ms_per_day)) (Date (b * ms_per_day)) = Num (a - b)"
proof -
  have "a * ms_per_day - b * ms_per_day = (a - b) * ms_per_day" by (simp add: algebra_simps)
  moreover have "\<bar>(a - b) * ms_per_day\<bar> div ms_per_day = \<bar>a - b\<bar>"
    using ms_per_day_pos by (simp add: abs_mult)
  moreover have "sgn ((a - b) * ms_per_day) = sgn (a - b)"
    using ms_per_day_pos by (simp add: sgn_mult)
  moreover have "sgn (a - b) * \<bar>a - b\<bar> = a - b" by (simp add: sgn_mult_abs)
  ultimately show ?thesis by simp
qed

lemma resolve_premium_active:
  assumes "tier sub = ''premium''" and "status sub = ''active''"
    and "plan_expiry_date sub = Some (Date t)"
  shows "resolve now (Some sub) =
           (if date_of now < date_of t then (Premium, False, None)
            else if date_of now \<le> date_of t + 7
              then (Free, True, Some (Num (date_of t + 7 - date_of now)))
              else (Free, False, None))"
proof -
  have end_day: "addDays (startOfDay (Date t)) GRACE_PERIOD_DAYS = Date ((date_of t + 7) * ms_per_day)"
    unfolding startOfDay_date_of GRACE_PERIOD_DAYS_def by (simp add: algebra_simps)
  have today: "startOfDay (Date now) = Date (date_of now * ms_per_day)"
    by (rule startOfDay_date_of)
  have fut: "isFuture now (startOfDay (Date t)) \<longleftrightarrow> date_of now < date_of t"
    unfolding startOfDay_date_of by (simp add: day_start_future)
  have fut_end: "isFuture now (Date ((date_of t + 7) * ms_per_day)) \<longleftrightarrow> date_of now < date_of t + 7"
    by (simp add: day_start_future)
  have diff: "differenceInDays (Date ((date_of t + 7) * ms_per_day)) (Date (date_of now * ms_per_day))
      = Num (date_of t + 7 - date_of now)"
    by (rule differenceInDays_starts)
  show ?thesis
    unfolding resolve_def
    by (simp only: assms option.case if_True simp_thms fut end_day today fut_end diff Let_def)
      (auto simp: max_def)
qed

lemma resolve_not_premium_active:
  "tier sub \<noteq> ''premium'' \<or> status sub \<noteq> ''active'' \<Longrightarrow> resolve now (Some sub) = (Free, False, None)"
  by (auto simp: resolve_def)

lemma resolve_invalid_date:
  "plan_expiry_date sub = Some Invalid_Date \<Longrightarrow> resolve now (Some sub) = (Free, False, None)"
  by (simp add: resolve_def GRACE_PERIOD_DAYS_def Let_def)

lemma resolve_null_expiry:
  "plan_expiry_date sub = None \<Longrightarrow> resolve now (Some sub) = (Free, False, None)"
  by (simp add: resolve_def)

lemma resolve_no_record: "resolve now None = (Free, False, None)"
  by (simp add: resolve_def)

lemma fetch_resolved:
  assumes "fetch uid = Resolves data err"
    and "\<forall>e. err = Some e \<longrightarrow> code e = ''PGRST116''"
  shows "resolver_output (fetchSubscriptionDetails (Some uid) now fetch) = resolve now data"
    and "currentSubscription (fetchSubscriptionDetails (Some uid) now fetch) = data"
    and "subscriptionLoading (fetchSubscriptionDetails (Some uid) now fetch) = False"
    and "toasts (fetchSubscriptionDetails (Some uid) now fetch) = []"
  using assms
  by (auto simp: fetchSubscriptionDetails_def try_block_def resolver_output_def Let_def
      split: option.splits prod.splits)

lemma fetch_failed:
  assumes "fetch uid = Rejects msg \<or> (\<exists>e. fetch uid = Resolves data (Some e) \<and> code e \<noteq> ''PGRST116'' \<and> message e = msg)"
  shows "fetchSubscriptionDetails (Some uid) now fetch =
           \<lparr>currentSubscription = None, subscriptionLoading = False,
            effectiveTierForLimits = Free, isInGracePeriod = False,
            daysLeftInGracePeriod = None,
            toasts = [(''Error Fetching Subscription Status'', msg)]\<rparr>"
  using assms
  by (auto simp: fetchSubscriptionDetails_def try_block_def Let_def)

lemma sub_of_row_simps [simp]:
  "tier (sub_of_row us) = tier us"
  "status (sub_of_row us) = status us"
  "plan_expiry_date (sub_of_row us) = map_option Date (plan_expiry_date us)"
  by (simp_all add: sub_of_row_def)

lemma cleanup_selects_iff:
  "cleanup_selects today us
     \<longleftrightarrow> tier us = ''premium'' \<and> (\<exists>ts. plan_expiry_date us = Some ts \<and> date_of ts + 7 < today)"
  by (auto simp: cleanup_selects_def grace_period_days_def split: option.splits)

lemma selected_users_expiry:
  "(v, x) \<in> set (selected_users today db) \<Longrightarrow> \<exists>ts. x = Some ts \<and> date_of ts + 7 < today"
  by (auto simp: selected_users_def cleanup_selects_iff)

lemma not_selected_subscriptions:
  assumes "u \<notin> fst ` set (selected_users today db)"
  shows "user_rows u (user_subscriptions (store_after_cleanup today db))
           = user_rows u (user_subscriptions db)"
proof -
  have "owned_by u (store_after_cleanup today db) = owned_by u db"
    unfolding store_after_cleanup_loop using assms by (rule cleanup_loop_frame)
  then have "user_subscriptions (owned_by u (store_after_cleanup today db))
      = user_subscriptions (owned_by u db)" by simp
  then show ?thesis by (simp add: owned_by_def)
qed

text \<open>
  C7. A premium, active subscription whose expiry date is the day before today:
  the Resolver puts out the free tier, an active grace period and 6 days left.
\<close>

theorem resolver_one_day_after_expiry:
  assumes "tier sub = ''premium''" and "status sub = ''active''"
    and "plan_expiry_date sub = Some (Date t)"
    and "date_of t = date_of now - 1"
    and "fetch uid = Resolves (Some sub) None"
  shows "resolve now (Some sub) = (Free, True, Some (Num 6))
       \<and> resolver_output (fetchSubscriptionDetails (Some uid) now fetch)
           = (Free, True, Some (Num 6))"
proof -
  have "resolve now (Some sub) = (Free, True, Some (Num 6))"
    using assms(4) by (simp add: resolve_premium_active [OF assms(1-3)])
  moreover have "resolver_output (fetchSubscriptionDetails (Some uid) now fetch)
      = resolve now (Some sub)"
    using assms(5) by (rule fetch_resolved(1)) simp
  ultimately show ?thesis by simp
qed

theorem resolver_one_day_after_expiry_witness:
  "date_of (9 * ms_per_day + 5000) = date_of (10 * ms_per_day + 777) - 1
   \<and> resolver_output (fetchSubscriptionDetails (Some 1) (10 * ms_per_day + 777)
        (\<lambda>uid. Resolves (Some (sub_of_row (premium_row uid (Some (9 * ms_per_day + 5000))))) None))
       = (Free, True, Some (Num 6))"
proof -
  let ?sub = "sub_of_row (premium_row 1 (Some (9 * ms_per_day + 5000)))"
  have d: "date_of (9 * ms_per_day + 5000) = date_of (10 * ms_per_day + 777) - 1"
    by (simp add: date_of_def ms_per_day_def)
  have "tier ?sub = ''premium''" and "status ?sub = ''active''"
    and "plan_expiry_date ?sub = Some (Date (9 * ms_per_day + 5000))"
    by (simp_all add: premium_row_def)
  from resolver_one_day_after_expiry [OF this d, of "\<lambda>uid. Resolves (Some (sub_of_row (premium_row uid (Some (9 * ms_per_day + 5000))))) None" 1] d
  show ?thesis by simp
qed

lemma local_day_utc: "local_day 0 t = date_of t"
  by (simp add: local_day_def date_of_def)

lemma local_day_date_of: "local_day off t = date_of (t + off)"
  by (simp add: local_day_def date_of_def)

lemma startOfDay_in_utc: "startOfDay_in 0 d = startOfDay d"
  by (cases d) simp_all

lemma resolve_in_utc: "resolve_in 0 now data = resolve now data"
  unfolding resolve_in_def resolve_def startOfDay_in_utc by (rule refl)

lemma try_block_in_utc: "try_block_in 0 now res = try_block now res"
  unfolding try_block_in_def try_block_def resolve_in_utc by (rule refl)

lemma fetchSubscriptionDetails_in_utc:
  "fetchSubscriptionDetails_in 0 currentUser now fetch = fetchSubscriptionDetails currentUser now fetch"
  unfolding fetchSubscriptionDetails_in_def fetchSubscriptionDetails_def try_block_in_utc
  by (rule refl)

lemma startOfDay_in_local_day:
  "startOfDay_in off (Date t) = Date (local_day off t * ms_per_day - off)"
proof -
  have "(t + off) - (t + off) mod ms_per_day = (t + off) div ms_per_day * ms_per_day"
    by (rule minus_mod_eq_div_mult)
  then have "t - (t + off) mod ms_per_day = (t + off) div ms_per_day * ms_per_day - off"
    by linarith
  then show ?thesis by (simp add: local_day_def)
qed

lemma local_midnight_future: "now < e * ms_per_day - off \<longleftrightarrow> local_day off now < e"
proof -
  have "now < e * ms_per_day - off \<longleftrightarrow> now + off < e * ms_per_day" by linarith
  then show ?thesis by (simp only: day_start_future local_day_date_of)
qed

lemma differenceInDays_local_midnights:
  "differenceInDays (Date (a * ms_per_day - off)) (Date (b * ms_per_day - off)) = Num (a - b)"
proof -
  have "a * ms_per_day - off - (b * ms_per_day - off) = a * ms_per_day - b * ms_per_day"
    by simp
  then have "differenceInDays (Date (a * ms_per_day - off)) (Date (b * ms_per_day - off))
      = differenceInDays (Date (a * ms_per_day)) (Date (b * ms_per_day))"
    by simp
  then show ?thesis by (simp only: differenceInDays_starts)
qed

lemma resolve_in_premium_active:
  assumes "tier sub = ''premium''" and "status sub = ''active''"
    and "plan_expiry_date sub = Some (Date t)"
  shows "resolve_in off now (Some sub) =
           (if local_day off now < local_day off t then (Premium, False, None)
            else if local_day off now \<le> local_day off t + 7
              then (Free, True, Some (Num (local_day off t + 7 - local_day off now)))
              else (Free, False, None))"
proof -
  have end_day: "addDays (startOfDay_in off (Date t)) GRACE_PERIOD_DAYS
      = Date ((local_day off t + 7) * ms_per_day - off)"
    unfolding startOfDay_in_local_day GRACE_PERIOD_DAYS_def by (simp add: algebra_simps)
  have today: "startOfDay_in off (Date now) = Date (local_day off now * ms_per_day - off)"
    by (rule startOfDay_in_local_day)
  have fut: "isFuture now (startOfDay_in off (Date t)) \<longleftrightarrow> local_day off now < local_day off t"
    unfolding startOfDay_in_local_day by (simp add: local_midnight_future)
  have fut_end: "isFuture now (Date ((local_day off t + 7) * ms_per_day - off))
      \<longleftrightarrow> local_day off now < local_day off t + 7"
    by (simp add: local_midnight_future)
  have diff: "differenceInDays (Date ((local_day off t + 7) * ms_per_day - off))
        (Date (local_day off now * ms_per_day - off))
      = Num (local_day off t + 7 - local_day off now)"
    by (rule differenceInDays_local_midnights)
  show ?thesis
    unfolding resolve_in_def
    by (simp only: assms option.case if_True simp_thms fut end_day today fut_end diff Let_def)
      (auto simp: max_def)
qed

lemma fetch_in_resolved:
  assumes "fetch uid = Resolves data None"
  shows "resolver_output (fetchSubscriptionDetails_in off (Some uid) now fetch) = resolve_in off now data"
  using assms
  by (auto simp: fetchSubscriptionDetails_in_def try_block_in_def resolver_output_def Let_def
      split: prod.splits)

text \<open>
  C3, as stated. The Resolver counts days in the browser's calendar, the job in the
  store's. A browser eight hours behind the store, an expiry at noon of the store's
  day 10 and a clock at two in the morning of the store's day 18: in the browser the
  expiry date is exactly 7 days before today and the Resolver reports the grace
  period with 0 days left, yet the job selects the subscription.
\<close>

theorem grace_boundary_zone_counterexample:
  "local_day pacific_offset evening_instant = local_day pacific_offset expiry_instant + 7
   \<and> resolver_output (fetchSubscriptionDetails_in pacific_offset (Some 1) evening_instant
        (fetch_premium (Some expiry_instant)))
       = (Free, True, Some (Num 0))
   \<and> cleanup_selects (date_of evening_instant) (premium_row 1 (Some expiry_instant))"
proof -
  have d: "local_day pacific_offset evening_instant = 17"
    "local_day pacific_offset expiry_instant = 10"
    "date_of evening_instant = 18" "date_of expiry_instant = 10"
    by (simp_all add: local_day_def date_of_def ms_per_day_def pacific_offset_def
        evening_instant_def expiry_instant_def)
  have r: "resolve_in pacific_offset evening_instant
        (Some (sub_of_row (premium_row 1 (Some expiry_instant)))) = (Free, True, Some (Num 0))"
    by (subst resolve_in_premium_active [where t = expiry_instant])
      (simp_all add: premium_row_def d)
  have f: "resolver_output (fetchSubscriptionDetails_in pacific_offset (Some 1) evening_instant
        (fetch_premium (Some expiry_instant)))
      = resolve_in pacific_offset evening_instant
          (Some (sub_of_row (premium_row 1 (Some expiry_instant))))"
    by (rule fetch_in_resolved) (simp add: fetch_premium_def)
  have s: "cleanup_selects (date_of evening_instant) (premium_row 1 (Some expiry_instant))"
    by (simp add: cleanup_selects_iff premium_row_def d)
  from d r f s show ?thesis by simp
qed

text \<open>
  C3, amended. For a premium, active subscription whose expiry date is exactly 7 days
  before today in the browser's calendar, the Resolver reports the grace period as
  active with 0 days left; the job does not select it provided the store's calendar
  has counted no more days from the expiry to now than the browser's, as is the case
  when both are in one time zone. Eight days after the expiry the Resolver reports no
  grace period, and the job selects the subscription provided the store's calendar
  has counted no fewer days. The Resolver reports grace exactly from the expiry day
  to 7 days after it, in the browser's days; the job selects exactly when the expiry
  date plus 7 days is strictly before the store's current date, and every row the loop
  runs over is such a row.
\<close>

theorem grace_boundaries_one_day_apart:
  assumes "tier us = ''premium''" and "status us = ''active''"
    and "plan_expiry_date us = Some t"
    and "fetch uid = Resolves (Some (sub_of_row us)) None"
  shows "let out = resolver_output (fetchSubscriptionDetails_in off (Some uid) now fetch)
         in (local_day off now = local_day off t + 7 \<longrightarrow> out = (Free, True, Some (Num 0)))
          \<and> (local_day off now = local_day off t + 7
               \<and> date_of now - date_of t \<le> local_day off now - local_day off t \<longrightarrow>
                \<not> cleanup_selects (date_of now) us)
          \<and> (local_day off now = local_day off t + 8
               \<and> local_day off now - local_day off t \<le> date_of now - date_of t \<longrightarrow>
                out = (Free, False, None) \<and> cleanup_selects (date_of now) us)
          \<and> (isInGracePeriod (fetchSubscriptionDetails_in off (Some uid) now fetch)
                \<longleftrightarrow> local_day off t \<le> local_day off now \<and> local_day off now \<le> local_day off t + 7)
          \<and> (cleanup_selects today us \<longleftrightarrow> date_of t + 7 < today)
          \<and> ((v, x) \<in> set (selected_users today db) \<longrightarrow>
                (\<exists>ts. x = Some ts \<and> date_of ts + 7 < today))
          \<and> (off = 0 \<longrightarrow> local_day off now - local_day off t = date_of now - date_of t)"
proof -
  let ?st = "fetchSubscriptionDetails_in off (Some uid) now fetch"
  have out: "resolver_output ?st = resolve_in off now (Some (sub_of_row us))"
    using assms(4) by (rule fetch_in_resolved)
  have res: "resolve_in off now (Some (sub_of_row us)) =
           (if local_day off now < local_day off t then (Premium, False, None)
            else if local_day off now \<le> local_day off t + 7
              then (Free, True, Some (Num (local_day off t + 7 - local_day off now)))
              else (Free, False, None))"
    by (rule resolve_in_premium_active) (simp_all add: assms)
  have sel: "cleanup_selects d us \<longleftrightarrow> date_of t + 7 < d" for d
    by (simp add: cleanup_selects_iff assms)
  have a: "local_day off now = local_day off t + 7 \<longrightarrow> resolver_output ?st = (Free, True, Some (Num 0))"
    by (simp add: out res)
  have b: "local_day off now = local_day off t + 7
      \<and> date_of now - date_of t \<le> local_day off now - local_day off t \<longrightarrow>
      \<not> cleanup_selects (date_of now) us"
    by (simp add: sel)
  have c: "local_day off now = local_day off t + 8
      \<and> local_day off now - local_day off t \<le> date_of now - date_of t \<longrightarrow>
      resolver_output ?st = (Free, False, None) \<and> cleanup_selects (date_of now) us"
    by (simp add: out res sel)
  have "isInGracePeriod ?st = fst (snd (resolver_output ?st))"
    by (simp add: resolver_output_def)
  then have g: "isInGracePeriod ?st
      \<longleftrightarrow> local_day off t \<le> local_day off now \<and> local_day off now \<le> local_day off t + 7"
    by (auto simp: out res)
  have e: "(v, x) \<in> set (selected_users today db) \<longrightarrow> (\<exists>ts. x = Some ts \<and> date_of ts + 7 < today)"
    using selected_users_expiry by blast
  have z: "off = 0 \<longrightarrow> local_day off now - local_day off t = date_of now - date_of t"
    by (simp add: local_day_utc)
  from a b c g sel [of today] e z show ?thesis unfolding Let_def by blast
qed

theorem grace_boundaries_one_day_apart_witness:
  "local_day 3600000 (17 * ms_per_day + 777) = local_day 3600000 (10 * ms_per_day + 5000) + 7
   \<and> date_of (17 * ms_per_day + 777) - date_of (10 * ms_per_day + 5000) = 7
   \<and> resolver_output (fetchSubscriptionDetails_in 3600000 (Some 1) (17 * ms_per_day + 777)
        (\<lambda>uid. Resolves (Some (sub_of_row (premium_row uid (Some (10 * ms_per_day + 5000))))) None))
       = (Free, True, Some (Num 0))
   \<and> \<not> cleanup_selects (date_of (17 * ms_per_day + 777)) (premium_row 1 (Some (10 * ms_per_day + 5000)))
   \<and> cleanup_selects 18 (premium_row 1 (Some (10 * ms_per_day + 5000)))"
proof -
  let ?us = "premium_row 1 (Some (10 * ms_per_day + 5000))"
  let ?fetch = "\<lambda>uid. Resolves (Some (sub_of_row (premium_row uid (Some (10 * ms_per_day + 5000))))) None"
  have d: "date_of (17 * ms_per_day + 777) = 17" "date_of (10 * ms_per_day + 5000) = 10"
    "local_day 3600000 (17 * ms_per_day + 777) = 17"
    "local_day 3600000 (10 * ms_per_day + 5000) = 10"
    by (simp_all add: date_of_def local_day_def ms_per_day_def)
  have h: "tier ?us = ''premium''" "status ?us = ''active''"
    "plan_expiry_date ?us = Some (10 * ms_per_day + 5000)"
    "?fetch 1 = Resolves (Some (sub_of_row ?us)) None"
    by (simp_all add: premium_row_def)
  from grace_boundaries_one_day_apart [where us = ?us and t = "10 * ms_per_day + 5000"
      and fetch = ?fetch and uid = 1 and now = "17 * ms_per_day + 777" and today = 18
      and off = 3600000] h d
  show ?thesis by (simp add: Let_def)
qed

text \<open>
  C8. With no signed-in user, with no subscription record (whatever error came with
  the empty answer), when the fetch is rejected or answers with an error other than
  \<open>PGRST116\<close>, and for a malformed record, the hook ends with the free tier, no grace
  period and no days left. A failure is caught: the hook's state is reset, loading is
  over and one toast carries the message. \<open>active\<close> is a status value.
\<close>

theorem resolver_fails_closed:
  assumes "valid_status ''active''"
  shows "resolver_output (fetchSubscriptionDetails None now fetch) = (Free, False, None)
       \<and> (fetch uid = Resolves None err \<longrightarrow>
            resolver_output (fetchSubscriptionDetails (Some uid) now fetch) = (Free, False, None))
       \<and> (fetch uid = Rejects msg \<longrightarrow>
            fetchSubscriptionDetails (Some uid) now fetch =
              \<lparr>currentSubscription = None, subscriptionLoading = False,
               effectiveTierForLimits = Free, isInGracePeriod = False,
               daysLeftInGracePeriod = None,
               toasts = [(''Error Fetching Subscription Status'', msg)]\<rparr>)
       \<and> (fetch uid = Resolves data (Some e) \<and> code e \<noteq> ''PGRST116'' \<longrightarrow>
            fetchSubscriptionDetails (Some uid) now fetch =
              \<lparr>currentSubscription = None, subscriptionLoading = False,
               effectiveTierForLimits = Free, isInGracePeriod = False,
               daysLeftInGracePeriod = None,
               toasts = [(''Error Fetching Subscription Status'', message e)]\<rparr>)
       \<and> (fetch uid = Resolves (Some sub) err \<and> malformed valid_status sub \<longrightarrow>
            resolver_output (fetchSubscriptionDetails (Some uid) now fetch) = (Free, False, None))"
proof -
  let ?out = "resolver_output (fetchSubscriptionDetails (Some uid) now fetch)"
  have failed: "?out = (Free, False, None)"
    if "fetch uid = Resolves d (Some e')" and "code e' \<noteq> ''PGRST116''" for d e'
    using fetch_failed [of fetch uid "message e'" d now] that
    by (simp add: resolver_output_def)
  have ok: "?out = resolve now d"
    if "fetch uid = Resolves d er" and "\<forall>e'. er = Some e' \<longrightarrow> code e' = ''PGRST116''" for d er
    using that by (rule fetch_resolved(1))
  have a: "resolver_output (fetchSubscriptionDetails None now fetch) = (Free, False, None)"
    by (simp add: fetchSubscriptionDetails_def resolver_output_def)
  have b: "fetch uid = Resolves None err \<longrightarrow> ?out = (Free, False, None)"
  proof
    assume f: "fetch uid = Resolves None err"
    show "?out = (Free, False, None)"
    proof (cases "\<forall>e'. err = Some e' \<longrightarrow> code e' = ''PGRST116''")
      case True
      with f show ?thesis by (simp add: ok resolve_no_record)
    next
      case False
      then obtain e' where "err = Some e'" and "code e' \<noteq> ''PGRST116''" by blast
      with f show ?thesis by (simp add: failed)
    qed
  qed
  have c: "fetch uid = Rejects msg \<longrightarrow>
            fetchSubscriptionDetails (Some uid) now fetch =
              \<lparr>currentSubscription = None, subscriptionLoading = False,
               effectiveTierForLimits = Free, isInGracePeriod = False,
               daysLeftInGracePeriod = None,
               toasts = [(''Error Fetching Subscription Status'', msg)]\<rparr>"
    using fetch_failed [of fetch uid msg data now] by blast
  have d: "fetch uid = Resolves data (Some e) \<and> code e \<noteq> ''PGRST116'' \<longrightarrow>
            fetchSubscriptionDetails (Some uid) now fetch =
              \<lparr>currentSubscription = None, subscriptionLoading = False,
               effectiveTierForLimits = Free, isInGracePeriod = False,
               daysLeftInGracePeriod = None,
               toasts = [(''Error Fetching Subscription Status'', message e)]\<rparr>"
    using fetch_failed [of fetch uid "message e" data now] by blast
  have m: "resolve now (Some sub) = (Free, False, None)" if "malformed valid_status sub"
  proof -
    have "status sub \<noteq> ''active''" if "\<not> valid_status (status sub)"
      using that assms by auto
    with that consider "tier sub \<noteq> ''premium''" | "status sub \<noteq> ''active''"
      | "plan_expiry_date sub = Some Invalid_Date"
      unfolding malformed_def by blast
    then show ?thesis
      by cases (simp_all add: resolve_not_premium_active resolve_invalid_date)
  qed
  have g: "fetch uid = Resolves (Some sub) err \<and> malformed valid_status sub \<longrightarrow>
      ?out = (Free, False, None)"
  proof
    assume f: "fetch uid = Resolves (Some sub) err \<and> malformed valid_status sub"
    show "?out = (Free, False, None)"
    proof (cases "\<forall>e'. err = Some e' \<longrightarrow> code e' = ''PGRST116''")
      case True
      with f show ?thesis by (simp add: ok m)
    next
      case False
      then obtain e' where "err = Some e'" and "code e' \<noteq> ''PGRST116''" by blast
      with f show ?thesis by (simp add: failed)
    qed
  qed
  from a b c d g show ?thesis by blast
qed

theorem resolver_fails_closed_witness:
  "malformed (\<lambda>s. s = ''active'')
     \<lparr>user_id = 1, tier = ''premium'', status = ''active'', plan_expiry_date = Some Invalid_Date\<rparr>
   \<and> resolver_output (fetchSubscriptionDetails (Some 1) 1000
        (\<lambda>uid. Resolves (Some \<lparr>user_id = uid, tier = ''premium'', status = ''active'',
                                plan_expiry_date = Some Invalid_Date\<rparr>) None))
       = (Free, False, None)
   \<and> resolver_output (fetchSubscriptionDetails (Some 1) 1000
        (\<lambda>uid. Resolves None (Some \<lparr>code = ''PGRST116'', message = ''no rows''\<rparr>)))
       = (Free, False, None)
   \<and> fetchSubscriptionDetails (Some 1) 1000 (\<lambda>uid. Rejects ''network'')
       = \<lparr>currentSubscription = None, subscriptionLoading = False,
          effectiveTierForLimits = Free, isInGracePeriod = False,
          daysLeftInGracePeriod = None,
          toasts = [(''Error Fetching Subscription Status'', ''network'')]\<rparr>"
proof -
  have v: "(\<lambda>s. s = ''active'') ''active''" by simp
  have m: "malformed (\<lambda>s. s = ''active'')
     \<lparr>user_id = 1, tier = ''premium'', status = ''active'', plan_expiry_date = Some Invalid_Date\<rparr>"
    by (simp add: malformed_def)
  from m v
    resolver_fails_closed [where valid_status = "\<lambda>s. s = ''active''" and now = 1000 and uid = 1
      and fetch = "\<lambda>uid. Resolves (Some \<lparr>user_id = uid, tier = ''premium'', status = ''active'',
                                plan_expiry_date = Some Invalid_Date\<rparr>) None"
      and err = None
      and sub = "\<lparr>user_id = 1, tier = ''premium'', status = ''active'',
                  plan_expiry_date = Some Invalid_Date\<rparr>"]
    resolver_fails_closed [where valid_status = "\<lambda>s. s = ''active''" and now = 1000 and uid = 1
      and fetch = "\<lambda>uid. Resolves None (Some \<lparr>code = ''PGRST116'', message = ''no rows''\<rparr>)"
      and err = "Some \<lparr>code = ''PGRST116'', message = ''no rows''\<rparr>"]
    resolver_fails_closed [where valid_status = "\<lambda>s. s = ''active''" and now = 1000 and uid = 1
      and fetch = "\<lambda>uid. Rejects ''network''" and msg = "''network''"]
  show ?thesis by simp
qed

text \<open>
  C10. A premium, active subscription with a null expiry date: the Resolver puts out
  the free tier, no grace period and no days left; the job's filter rejects the row on
  every day; and when the row is the only subscription of its user, the user is not
  selected and the row is still there after a run, and after any number of runs on
  any days.
\<close>

theorem null_expiry_never_cleaned:
  assumes "tier us = ''premium''" and "status us = ''active''"
    and "plan_expiry_date us = None"
    and "fetch uid = Resolves (Some (sub_of_row us)) None"
    and "user_rows (user_id us) (user_subscriptions db) = [us]"
  shows "resolver_output (fetchSubscriptionDetails (Some uid) now fetch) = (Free, False, None)
       \<and> \<not> cleanup_selects today us
       \<and> user_id us \<notin> fst ` set (selected_users today db)
       \<and> user_rows (user_id us) (user_subscriptions (store_after_cleanup today db)) = [us]
       \<and> user_rows (user_id us) (user_subscriptions (fold store_after_cleanup days db)) = [us]"
proof -
  let ?u = "user_id us"
  have out: "resolver_output (fetchSubscriptionDetails (Some uid) now fetch) = (Free, False, None)"
    using fetch_resolved(1) [where fetch = fetch and uid = uid and err = None
        and data = "Some (sub_of_row us)" and now = now] assms(4)
    by (simp add: resolve_null_expiry assms(3))
  have nsel: "\<not> cleanup_selects d us" for d
    by (simp add: cleanup_selects_def assms(3))
  have keep: "?u \<notin> fst ` set (selected_users d db')
      \<and> user_rows ?u (user_subscriptions (store_after_cleanup d db')) = [us]"
    if "user_rows ?u (user_subscriptions db') = [us]" for d db'
  proof -
    have "?u \<notin> fst ` set (selected_users d db')"
      using that nsel by (simp add: selected_users_iff)
    then show ?thesis using that by (simp add: not_selected_subscriptions)
  qed
  have many: "user_rows ?u (user_subscriptions (fold store_after_cleanup ds db')) = [us]"
    if "user_rows ?u (user_subscriptions db') = [us]" for ds db'
    using that
  proof (induction ds arbitrary: db')
    case Nil
    then show ?case by simp
  next
    case (Cons d ds)
    from keep [OF Cons.prems, of d]
    have "user_rows ?u (user_subscriptions (store_after_cleanup d db')) = [us]" by simp
    then show ?case using Cons.IH by simp
  qed
  from out nsel [of today] keep [OF assms(5), of today] many [OF assms(5), of days]
  show ?thesis by blast
qed

theorem null_expiry_never_cleaned_witness:
  "user_rows 3 (user_subscriptions null_expiry_example) = [premium_row 3 None]
   \<and> selected_users 10 null_expiry_example = [(1, Some 0)]
   \<and> resolver_output (fetchSubscriptionDetails (Some 3) (10 * ms_per_day)
        (\<lambda>uid. Resolves (Some (sub_of_row (premium_row uid None))) None))
       = (Free, False, None)
   \<and> user_rows 3 (user_subscriptions (fold store_after_cleanup [10, 11, 400] null_expiry_example))
       = [premium_row 3 None]"
proof -
  let ?us = "premium_row 3 None"
  let ?fetch = "\<lambda>uid. Resolves (Some (sub_of_row (premium_row uid None))) None"
  have h: "tier ?us = ''premium''" "status ?us = ''active''" "plan_expiry_date ?us = None"
    "?fetch 3 = Resolves (Some (sub_of_row ?us)) None"
    by (simp_all add: premium_row_def)
  have u: "user_id ?us = 3" by (simp add: premium_row_def)
  have r: "user_rows (user_id ?us) (user_subscriptions null_expiry_example) = [?us]"
    by (simp add: u) (simp add: null_expiry_example_def user_rows_def premium_row_def)
  have s: "selected_users 10 null_expiry_example = [(1, Some 0)]"
    by (simp add: selected_users_def null_expiry_example_def cleanup_selects_def premium_row_def
        date_of_def grace_period_days_def ms_per_day_def)
  from null_expiry_never_cleaned [where us = ?us and fetch = ?fetch and uid = 3
      and db = null_expiry_example and now = "10 * ms_per_day" and today = 10
      and days = "[10, 11, 400]"] h r s u
  show ?thesis by simp
qed

end
